theory Spec2Isabelle
  imports Complex_Main
begin

section \<open>Tokens (lang/lexer.py)\<close>

text \<open>
  Source text is a list of characters; each \<^typ>\<open>char\<close> stands for the code point of the
  same number (0 to 255).
\<close>

datatype TokenType =
    LET | IF | ELIF | ELSE | ID | STRING | INT_T | REPEAT
  | L_BRACE | R_BRACE | L_PAREN | R_PAREN
  | LT | GT | EQUAL
  | PLUS | MINUS | MUL | DIV
  | SEMICOLON | COLON | TERNARY

text \<open>The string each member of the enumeration carries (\<open>TokenType.X.value\<close>).\<close>

fun type_value :: "TokenType \<Rightarrow> string" where
  "type_value LET = ''let''"
| "type_value IF = ''if''"
| "type_value ELIF = ''elif''"
| "type_value ELSE = ''else''"
| "type_value ID = ''ID''"
| "type_value STRING = ''STRING''"
| "type_value INT_T = ''INT''"
| "type_value REPEAT = ''repeat''"
| "type_value L_BRACE = ''{''"
| "type_value R_BRACE = ''}''"
| "type_value L_PAREN = ''(''"
| "type_value R_PAREN = '')''"
| "type_value LT = ''<''"
| "type_value GT = ''>''"
| "type_value EQUAL = ''=''"
| "type_value PLUS = ''+''"
| "type_value MINUS = ''-''"
| "type_value MUL = ''*''"
| "type_value DIV = ''/''"
| "type_value SEMICOLON = '';''"
| "type_value COLON = '':''"
| "type_value TERNARY = ''?''"

definition all_token_types :: "TokenType list" where
  "all_token_types =
     [LET, IF, ELIF, ELSE, ID, STRING, INT_T, REPEAT, L_BRACE, R_BRACE, L_PAREN, R_PAREN,
      LT, GT, EQUAL, PLUS, MINUS, MUL, DIV, SEMICOLON, COLON, TERNARY]"

text \<open>\<open>TokenType.get(value)\<close>: the member with that value, or \<open>None\<close>.\<close>

definition TokenType_get :: "string \<Rightarrow> TokenType option" where
  "TokenType_get v = find (\<lambda>t. type_value t = v) all_token_types"

text \<open>
  \<open>Token.value\<close> is an \<open>int\<close> for an \<open>INT\<close> token and a \<open>str\<close> for every other one.
  \<open>Token.type\<close> is \<open>None\<close> for the keywords \<open>and\<close>, \<open>or\<close>, \<open>not\<close>, which
  \<open>TokenType.get\<close> does not know.
\<close>

datatype tok_value = IntVal int | StrVal string

record Token =
  type :: "TokenType option"
  tvalue :: tok_value
  line :: nat
  col :: nat

section \<open>Errors\<close>

text \<open>
  Every exception the code raises or lets through is a value. The message texts of the
  repository's own \<open>raise\<close> statements are kept as structured data:
  \<^item> \<open>LexError c l k\<close>: \<open>ValueError("<c> wird nicht akzeptiert (l:k)")\<close> of the lexer;
  \<^item> \<open>IntLiteralError s\<close>: the \<open>ValueError\<close> of \<open>int(s)\<close> on a string that \<open>isdigit\<close>
    accepts and \<open>int\<close> does not;
  \<^item> \<open>IndexError\<close>: \<open>source_code[0]\<close> on the empty source;
  \<^item> \<open>EOFError\<close>: \<open>EOFError("Reached end of file")\<close> of \<open>Parser.eat\<close>;
  \<^item> \<open>Expected ts v l k\<close>: \<open>ValueError("Expected <ts joined by or>, got <v> (l:k)")\<close>;
  \<^item> \<open>StatementError\<close>: \<open>ValueError("Statement must be an assignment, ...")\<close>;
  \<^item> \<open>FactorError\<close>: the bare \<open>ValueError\<close> of \<open>Parser.factor\<close> at the end of input;
  \<^item> \<open>AssignToComparison\<close>: \<open>ValueError("Can't assign to comparison.")\<close>;
  \<^item> \<open>UnresolvedIdentifier n\<close>: \<open>ValueError("Variable <n> not found")\<close> of
    \<open>SymbolTable.get_or_raise\<close>;
  \<^item> \<open>KeyError\<close>, \<open>TypeError\<close>, \<open>ZeroDivisionError\<close>, \<open>OverflowError\<close>: raised by the
    Python operations the code applies.
  Three more values mark where the model stops, and are no behaviour of the program:
  \<open>OutOfFuel\<close> (the recursion bound of the parser model ran out), \<open>IllTypedToken\<close> (a
  hand-built token whose value has not the type its kind declares) and
  \<open>IdSupplyExhausted\<close> (the finite list standing for \<open>random.sample\<close> is used up).
\<close>

datatype error =
    LexError char nat nat
  | IntLiteralError string
  | IndexError
  | EOFError
  | Expected "TokenType list" tok_value nat nat
  | StatementError
  | FactorError
  | AssignToComparison
  | UnresolvedIdentifier string
  | KeyError string
  | TypeError
  | ZeroDivisionError
  | OverflowError
  | OutOfFuel
  | IllTypedToken
  | IdSupplyExhausted

section \<open>The lexer (lang/lexer.py, lang/consts.py)\<close>

definition ID_VALID_START_CHARS :: string where
  "ID_VALID_START_CHARS = ''abcdefghijklmnopqrstuvwxyzABCDEFGHIJKLMNOPQRSTUVWXYZ_''"

definition ID_VALID_CHARS :: string where
  "ID_VALID_CHARS = ''abcdefghijklmnopqrstuvwxyzABCDEFGHIJKLMNOPQRSTUVWXYZ_0123456789''"

definition KEYWORDS :: "string list" where
  "KEYWORDS = [''let'', ''if'', ''elif'', ''else'', ''and'', ''or'', ''not'', ''repeat'']"

text \<open>
  \<open>str.isdigit\<close> and \<open>str.isspace\<close> on one character, for the code points below 256:
  \<open>isdigit\<close> also holds of the superscripts two, three and one (0xB2, 0xB3, 0xB9), and
  \<open>isspace\<close> of the separators 0x1C to 0x1F, of 0x85 and of the no-break space 0xA0.
\<close>

definition ascii_digit :: "char \<Rightarrow> bool" where
  "ascii_digit c = (c \<in> set ''0123456789'')"

definition isdigit :: "char \<Rightarrow> bool" where
  "isdigit c = (ascii_digit c \<or> c \<in> {CHR 0xB2, CHR 0xB3, CHR 0xB9})"

definition isspace :: "char \<Rightarrow> bool" where
  "isspace c =
     (c \<in> {CHR 0x09, CHR 0x0A, CHR 0x0B, CHR 0x0C, CHR 0x0D, CHR 0x1C, CHR 0x1D, CHR 0x1E,
            CHR 0x1F, CHR 0x20, CHR 0x85, CHR 0xA0})"

definition digit_value :: "char \<Rightarrow> int" where
  "digit_value c = int (of_char c) - int (of_char CHR ''0'')"

text \<open>
  \<open>int(s)\<close> on a string of characters that \<open>isdigit\<close> accepts: the decimal value, or a
  \<open>ValueError\<close> when a character is not an ASCII digit. (The bound on the number of digits
  that newer interpreters put on \<open>int\<close> is not modelled.)
\<close>

definition py_int :: "string \<Rightarrow> error + int" where
  "py_int s =
     (if s \<noteq> [] \<and> list_all ascii_digit s
      then Inr (foldl (\<lambda>acc c. 10 * acc + digit_value c) 0 s)
      else Inl (IntLiteralError s))"

text \<open>
  The state of a \<open>Lexer\<close>. The attribute \<open>char\<close> of the class is always
  \<open>source_code[pos]\<close>, or \<open>None\<close> from the end of the text on, and is the function
  \<open>char\<close> here; \<open>lineno\<close> is the attribute \<open>line\<close>.
\<close>

record Lexer =
  source_code :: string
  pos :: nat
  lineno :: nat
  column :: nat

definition char :: "Lexer \<Rightarrow> char option" where
  "char L = (if pos L < length (source_code L) then Some (source_code L ! pos L) else None)"

definition advance :: "Lexer \<Rightarrow> Lexer" where
  "advance L =
     (let L1 = (if char L = Some CHR 0x0A then L\<lparr>lineno := lineno L + 1, column := 1\<rparr> else L)
      in L1\<lparr>pos := pos L1 + 1, column := column L1 + 1\<rparr>)"

text \<open>What is left to read: every loop of the lexer makes it smaller.\<close>

definition remaining :: "Lexer \<Rightarrow> nat" where
  "remaining L = length (source_code L) - pos L"

lemma remaining_advance:
  "char L = Some c \<Longrightarrow> remaining (advance L) < remaining L"
  by (auto simp: remaining_def advance_def char_def Let_def split: if_splits)

function skip_whitespace :: "Lexer \<Rightarrow> Lexer" where
  "skip_whitespace L =
     (case char L of
        Some c \<Rightarrow> if isspace c then skip_whitespace (advance L) else L
      | None \<Rightarrow> L)"
  by pat_completeness auto
termination
  by (relation "measure remaining") (auto simp: remaining_advance)

function skip_comment :: "Lexer \<Rightarrow> Lexer" where
  "skip_comment L =
     (case char L of
        Some c \<Rightarrow> if c \<noteq> CHR 0x0A then skip_comment (advance L) else L
      | None \<Rightarrow> L)"
  by pat_completeness auto
termination
  by (relation "measure remaining") (auto simp: remaining_advance)

text \<open>
  \<open>"".join(self.get_chars(condition=cond))\<close>: the characters the generator yields, and the
  lexer after it is exhausted.
\<close>

function get_chars :: "(char \<Rightarrow> bool) \<Rightarrow> Lexer \<Rightarrow> string \<times> Lexer" where
  "get_chars cond L =
     (case char L of
        Some c \<Rightarrow>
          if cond c then (let (cs, L1) = get_chars cond (advance L) in (c # cs, L1))
          else ([], L)
      | None \<Rightarrow> ([], L))"
  by pat_completeness auto
termination
  by (relation "measure (\<lambda>(cond, L). remaining L)") (auto simp: remaining_advance)

declare skip_whitespace.simps [simp del] skip_comment.simps [simp del] get_chars.simps [simp del]

lemma remaining_skip_whitespace: "remaining (skip_whitespace L) \<le> remaining L"
proof (induction L rule: skip_whitespace.induct)
  case (1 L)
  show ?case
  proof (cases "char L")
    case None
    then show ?thesis by (simp add: skip_whitespace.simps [of L])
  next
    case (Some c)
    with 1 [of c] remaining_advance [of L c] show ?thesis
      by (auto simp: skip_whitespace.simps [of L])
  qed
qed

lemma remaining_skip_comment: "remaining (skip_comment L) \<le> remaining L"
proof (induction L rule: skip_comment.induct)
  case (1 L)
  show ?case
  proof (cases "char L")
    case None
    then show ?thesis by (simp add: skip_comment.simps [of L])
  next
    case (Some c)
    with 1 [of c] remaining_advance [of L c] show ?thesis
      by (auto simp: skip_comment.simps [of L])
  qed
qed

lemma remaining_get_chars: "remaining (snd (get_chars cond L)) \<le> remaining L"
proof (induction cond L rule: get_chars.induct)
  case (1 cond L)
  show ?case
  proof (cases "char L")
    case None
    then show ?thesis by (simp add: get_chars.simps [of cond L])
  next
    case (Some c)
    with 1 [of c] remaining_advance [of L c] show ?thesis
      by (auto simp: get_chars.simps [of cond L] split: prod.splits)
  qed
qed

lemma remaining_skip_whitespace_less:
  "char L = Some c \<Longrightarrow> isspace c \<Longrightarrow> remaining (skip_whitespace L) < remaining L"
  using remaining_skip_whitespace [of "advance L"] remaining_advance [of L c]
  by (simp add: skip_whitespace.simps [of L])

lemma remaining_skip_comment_less:
  "char L = Some c \<Longrightarrow> c \<noteq> CHR 0x0A \<Longrightarrow> remaining (skip_comment L) < remaining L"
  using remaining_skip_comment [of "advance L"] remaining_advance [of L c]
  by (simp add: skip_comment.simps [of L])

lemma remaining_get_chars_less:
  "char L = Some c \<Longrightarrow> cond c \<Longrightarrow> get_chars cond L = (cs, L1) \<Longrightarrow> remaining L1 < remaining L"
  using remaining_get_chars [of cond "advance L"] remaining_advance [of L c]
  by (auto simp: get_chars.simps [of cond L] split: prod.splits)

lemma start_char_valid: "c \<in> set ID_VALID_START_CHARS \<Longrightarrow> c \<in> set ID_VALID_CHARS"
  by (auto simp: ID_VALID_START_CHARS_def ID_VALID_CHARS_def)

text \<open>
  The loop of \<open>Lexer.tokenize\<close>, with the list \<open>tokens\<close> built so far. The last branch is
  the \<open>raise ValueError\<close>.
\<close>

function tokenize_loop :: "Lexer \<Rightarrow> Token list \<Rightarrow> error + Token list" where
  "tokenize_loop L tokens =
     (case char L of
        None \<Rightarrow> Inr tokens
      | Some c \<Rightarrow>
          if isdigit c then
            (case get_chars isdigit L of (integer, L1) \<Rightarrow>
               (case py_int integer of
                  Inl e \<Rightarrow> Inl e
                | Inr i \<Rightarrow>
                    tokenize_loop L1
                      (tokens @ [\<lparr>type = Some INT_T, tvalue = IntVal i,
                                  line = lineno L, col = column L\<rparr>])))
          else if c \<in> set ID_VALID_START_CHARS then
            (case get_chars (\<lambda>c. c \<in> set ID_VALID_CHARS) L of (identifier, L1) \<Rightarrow>
               tokenize_loop L1
                 (tokens @ [\<lparr>type = (if identifier \<in> set KEYWORDS then TokenType_get identifier
                                      else Some ID),
                             tvalue = StrVal identifier, line = lineno L, col = column L\<rparr>]))
          else
            (case TokenType_get [c] of
               Some t_type \<Rightarrow>
                 tokenize_loop (advance L)
                   (tokens @ [\<lparr>type = Some t_type, tvalue = StrVal (type_value t_type),
                               line = lineno L, col = column L\<rparr>])
             | None \<Rightarrow>
                 if isspace c then tokenize_loop (skip_whitespace L) tokens
                 else if c = CHR ''#'' then tokenize_loop (skip_comment L) tokens
                 else Inl (LexError c (lineno L) (column L))))"
  by pat_completeness auto
termination
  apply (relation "measure (\<lambda>(L, tokens). remaining L)")
  apply (simp_all add: remaining_advance remaining_skip_whitespace_less remaining_skip_comment_less)
  subgoal for L c integer L1 i
    using remaining_get_chars_less [of L c isdigit integer L1] by simp
  subgoal for L c ident L1
    using remaining_get_chars_less [of L c "\<lambda>c. c \<in> set ID_VALID_CHARS" ident L1]
    by (simp add: start_char_valid)
  done

declare tokenize_loop.simps [simp del]

text \<open>
  \<open>Lexer(source_code).tokenize()\<close>. The constructor reads \<open>source_code[0]\<close>, which is an
  \<open>IndexError\<close> on the empty text.
\<close>

definition tokenize :: "string \<Rightarrow> error + Token list" where
  "tokenize source =
     (if source = [] then Inl IndexError
      else tokenize_loop \<lparr>source_code = source, pos = 0, lineno = 1, column = 1\<rparr> [])"

section \<open>Python numbers\<close>

text \<open>
  A Python \<open>float\<close> is an IEEE 754 binary64 number: \<open>Fl s m\<close> is the finite number of
  magnitude \<open>m\<close> (a rational that binary64 represents) and sign \<open>s\<close> (\<open>True\<close> for
  negative, so \<open>Fl True 0\<close> is \<open>-0.0\<close>), \<open>Infty s\<close> an infinity, \<open>NaN\<close> not-a-number.
\<close>

datatype pyfloat = Fl bool rat | Infty bool | NaN

definition pow2 :: "int \<Rightarrow> rat" where
  "pow2 k = (if 0 \<le> k then 2 ^ nat k else 1 / 2 ^ nat (- k))"

text \<open>The number of binary digits of a positive integer (\<open>int.bit_length\<close>).\<close>

function bit_length :: "int \<Rightarrow> int" where
  "bit_length n = (if n \<le> 0 then 0 else 1 + bit_length (n div 2))"
  by pat_completeness auto
termination
  by (relation "measure nat") auto

declare bit_length.simps [simp del]

text \<open>The exponent of a positive rational: \<open>pow2 e \<le> m < pow2 (e + 1)\<close>.\<close>

definition floor_log2 :: "rat \<Rightarrow> int" where
  "floor_log2 m =
     (let (p, q) = quotient_of m; d = bit_length p - bit_length q
      in if pow2 d \<le> m then d else d - 1)"

definition round_half_even :: "rat \<Rightarrow> int" where
  "round_half_even x =
     (let f = \<lfloor>x\<rfloor>; d = x - of_int f
      in if d < 1 / 2 then f
         else if 1 / 2 < d then f + 1
         else if even f then f else f + 1)"

text \<open>
  Rounding a positive magnitude to 53 significant bits, to nearest and ties to even, with
  the exponent no smaller than that of the subnormal numbers.
\<close>

definition round53 :: "rat \<Rightarrow> rat" where
  "round53 m =
     (let e = max (floor_log2 m) (- 1022); q = pow2 (e - 52)
      in of_int (round_half_even (m / q)) * q)"

definition fl_round :: "bool \<Rightarrow> rat \<Rightarrow> pyfloat" where
  "fl_round s m =
     (if m = 0 then Fl s 0
      else let r = round53 m in if pow2 1024 \<le> r then Infty s else Fl s r)"

definition fl_signed :: "bool \<Rightarrow> rat \<Rightarrow> rat" where
  "fl_signed s m = (if s then - m else m)"

fun fl_neg :: "pyfloat \<Rightarrow> pyfloat" where
  "fl_neg (Fl s m) = Fl (\<not> s) m"
| "fl_neg (Infty s) = Infty (\<not> s)"
| "fl_neg NaN = NaN"

fun fl_is_zero :: "pyfloat \<Rightarrow> bool" where
  "fl_is_zero (Fl s m) = (m = 0)"
| "fl_is_zero _ = False"

fun fl_add :: "pyfloat \<Rightarrow> pyfloat \<Rightarrow> pyfloat" where
  "fl_add NaN _ = NaN"
| "fl_add _ NaN = NaN"
| "fl_add (Infty s) (Infty t) = (if s = t then Infty s else NaN)"
| "fl_add (Infty s) (Fl _ _) = Infty s"
| "fl_add (Fl _ _) (Infty t) = Infty t"
| "fl_add (Fl s a) (Fl t b) =
     (let r = fl_signed s a + fl_signed t b
      in if r = 0 then Fl (s \<and> t) 0 else fl_round (r < 0) \<bar>r\<bar>)"

definition fl_sub :: "pyfloat \<Rightarrow> pyfloat \<Rightarrow> pyfloat" where
  "fl_sub x y = fl_add x (fl_neg y)"

fun fl_mul :: "pyfloat \<Rightarrow> pyfloat \<Rightarrow> pyfloat" where
  "fl_mul NaN _ = NaN"
| "fl_mul _ NaN = NaN"
| "fl_mul (Infty s) (Infty t) = Infty (s \<noteq> t)"
| "fl_mul (Infty s) (Fl t b) = (if b = 0 then NaN else Infty (s \<noteq> t))"
| "fl_mul (Fl s a) (Infty t) = (if a = 0 then NaN else Infty (s \<noteq> t))"
| "fl_mul (Fl s a) (Fl t b) = fl_round (s \<noteq> t) (a * b)"

text \<open>\<open>float.__truediv__\<close>: a zero divisor raises, everything else is IEEE division.\<close>

fun fl_div :: "pyfloat \<Rightarrow> pyfloat \<Rightarrow> error + pyfloat" where
  "fl_div x (Fl t b) =
     (if b = 0 then Inl ZeroDivisionError
      else case x of
             NaN \<Rightarrow> Inr NaN
           | Infty s \<Rightarrow> Inr (Infty (s \<noteq> t))
           | Fl s a \<Rightarrow> Inr (fl_round (s \<noteq> t) (a / b)))"
| "fl_div x NaN = Inr NaN"
| "fl_div x (Infty t) =
     (case x of
        NaN \<Rightarrow> Inr NaN
      | Infty s \<Rightarrow> Inr NaN
      | Fl s a \<Rightarrow> Inr (Fl (s \<noteq> t) 0))"

fun fl_lt :: "pyfloat \<Rightarrow> pyfloat \<Rightarrow> bool" where
  "fl_lt NaN _ = False"
| "fl_lt _ NaN = False"
| "fl_lt (Infty s) (Infty t) = (s \<and> \<not> t)"
| "fl_lt (Infty s) (Fl _ _) = s"
| "fl_lt (Fl _ _) (Infty t) = (\<not> t)"
| "fl_lt (Fl s a) (Fl t b) = (fl_signed s a < fl_signed t b)"

text \<open>
  The values \<open>eval\<close> returns and the symbol table holds: \<open>None\<close>, an \<open>int\<close> (unbounded), a
  \<open>bool\<close> or a \<open>float\<close>.
\<close>

datatype pyval = NoneV | IntV int | BoolV bool | FloatV pyfloat

datatype num = NInt int | NFloat pyfloat

text \<open>The operand of an arithmetic operator or a comparison; \<open>bool\<close> is a subclass of \<open>int\<close>.\<close>

fun as_num :: "pyval \<Rightarrow> num option" where
  "as_num NoneV = None"
| "as_num (IntV i) = Some (NInt i)"
| "as_num (BoolV b) = Some (NInt (if b then 1 else 0))"
| "as_num (FloatV f) = Some (NFloat f)"

text \<open>\<open>float(i)\<close> as mixed arithmetic applies it: correctly rounded, or \<open>OverflowError\<close>.\<close>

definition int_to_float :: "int \<Rightarrow> error + pyfloat" where
  "int_to_float i =
     (case fl_round (i < 0) (of_int \<bar>i\<bar>) of
        Infty _ \<Rightarrow> Inl OverflowError
      | f \<Rightarrow> Inr f)"

text \<open>\<open>int.__truediv__\<close>: the correctly rounded quotient, as a float.\<close>

definition int_truediv :: "int \<Rightarrow> int \<Rightarrow> error + pyfloat" where
  "int_truediv a b =
     (if b = 0 then Inl ZeroDivisionError
      else case fl_round ((a < 0) \<noteq> (b < 0)) (of_int \<bar>a\<bar> / of_int \<bar>b\<bar>) of
             Infty _ \<Rightarrow> Inl OverflowError
           | f \<Rightarrow> Inr f)"

text \<open>
  A binary operator on two Python values: on two ints the int operation, otherwise both
  operands as floats and the float operation; \<open>None\<close> is a \<open>TypeError\<close>.
\<close>

definition binop ::
  "(int \<Rightarrow> int \<Rightarrow> error + pyval) \<Rightarrow> (pyfloat \<Rightarrow> pyfloat \<Rightarrow> error + pyval) \<Rightarrow>
   pyval \<Rightarrow> pyval \<Rightarrow> error + pyval" where
  "binop fi ff x y =
     (case (as_num x, as_num y) of
        (Some (NInt a), Some (NInt b)) \<Rightarrow> fi a b
      | (Some (NInt a), Some (NFloat g)) \<Rightarrow>
          (case int_to_float a of Inl e \<Rightarrow> Inl e | Inr f \<Rightarrow> ff f g)
      | (Some (NFloat f), Some (NInt b)) \<Rightarrow>
          (case int_to_float b of Inl e \<Rightarrow> Inl e | Inr g \<Rightarrow> ff f g)
      | (Some (NFloat f), Some (NFloat g)) \<Rightarrow> ff f g
      | _ \<Rightarrow> Inl TypeError)"

definition py_add :: "pyval \<Rightarrow> pyval \<Rightarrow> error + pyval" where
  "py_add = binop (\<lambda>a b. Inr (IntV (a + b))) (\<lambda>f g. Inr (FloatV (fl_add f g)))"

definition py_sub :: "pyval \<Rightarrow> pyval \<Rightarrow> error + pyval" where
  "py_sub = binop (\<lambda>a b. Inr (IntV (a - b))) (\<lambda>f g. Inr (FloatV (fl_sub f g)))"

definition py_mul :: "pyval \<Rightarrow> pyval \<Rightarrow> error + pyval" where
  "py_mul = binop (\<lambda>a b. Inr (IntV (a * b))) (\<lambda>f g. Inr (FloatV (fl_mul f g)))"

definition py_truediv :: "pyval \<Rightarrow> pyval \<Rightarrow> error + pyval" where
  "py_truediv =
     binop (\<lambda>a b. map_sum id FloatV (int_truediv a b)) (\<lambda>f g. map_sum id FloatV (fl_div f g))"

text \<open>
  \<open>x < y\<close>. An int is compared with a float by value, without rounding the int.
\<close>

definition num_float :: "num \<Rightarrow> pyfloat" where
  "num_float n = (case n of NInt i \<Rightarrow> Fl (i < 0) (of_int \<bar>i\<bar>) | NFloat f \<Rightarrow> f)"

definition py_lt :: "pyval \<Rightarrow> pyval \<Rightarrow> error + pyval" where
  "py_lt x y =
     (case (as_num x, as_num y) of
        (Some a, Some b) \<Rightarrow> Inr (BoolV (fl_lt (num_float a) (num_float b)))
      | _ \<Rightarrow> Inl TypeError)"

definition py_gt :: "pyval \<Rightarrow> pyval \<Rightarrow> error + pyval" where
  "py_gt x y =
     (case (as_num x, as_num y) of
        (Some a, Some b) \<Rightarrow> Inr (BoolV (fl_lt (num_float b) (num_float a)))
      | _ \<Rightarrow> Inl TypeError)"

text \<open>The truth value of \<open>if v:\<close>.\<close>

fun truthy :: "pyval \<Rightarrow> bool" where
  "truthy NoneV = False"
| "truthy (IntV i) = (i \<noteq> 0)"
| "truthy (BoolV b) = b"
| "truthy (FloatV f) = (\<not> fl_is_zero f)"

text \<open>The number of values of \<open>range(v)\<close>; a float or \<open>None\<close> is a \<open>TypeError\<close>.\<close>

fun range_len :: "pyval \<Rightarrow> error + nat" where
  "range_len (IntV i) = Inr (nat i)"
| "range_len (BoolV b) = Inr (if b then 1 else 0)"
| "range_len _ = Inl TypeError"

section \<open>The syntax tree and the symbol table (lang/ast.py)\<close>

text \<open>
  One constructor per node class. The \<open>bool\<close> of \<open>Reference\<close>, \<open>Literal\<close> and
  \<open>ArithmeticOp\<close> is the \<open>standalone\<close> attribute of \<open>LogMixin\<close>, \<open>False\<close> until the
  parser sets it. The lists of \<open>IfStatement\<close> are \<open>block\<close>, \<open>elseif_statements\<close> and
  \<open>else_block\<close>.
\<close>

datatype node =
    Module "node list"
  | Reference string bool
  | Literal int bool
  | ArithmeticOp node string node bool
  | CompOp node string node
  | Assignment string node
  | Ternary node node node
  | IfStatement node "node list" "node list" "node list"
  | Repeat node "node list"

text \<open>
  What a traversal reads and writes: the dictionary \<open>SymbolTable.symbols\<close>, the values
  \<open>print\<close> has written (oldest first), and the strings the coming calls of
  \<open>"".join(_id_gen())\<close> return (\<open>random.sample\<close> is not determined by the program).
\<close>

record env =
  symbols :: "string \<rightharpoonup> pyval"
  printed :: "pyval list"
  rand_ids :: "string list"

definition bindE :: "error + 'a \<Rightarrow> ('a \<Rightarrow> error + 'b) \<Rightarrow> error + 'b" where
  "bindE m f = (case m of Inl e \<Rightarrow> Inl e | Inr x \<Rightarrow> f x)"

text \<open>\<open>self.symbols.get(name)\<close>: \<open>None\<close> for a missing key.\<close>

definition symbols_get :: "env \<Rightarrow> string \<Rightarrow> pyval" where
  "symbols_get s name = (case symbols s name of None \<Rightarrow> NoneV | Some v \<Rightarrow> v)"

definition add :: "string \<Rightarrow> pyval \<Rightarrow> env \<Rightarrow> env" where
  "add name v s = s\<lparr>symbols := (symbols s)(name \<mapsto> v)\<rparr>"

definition get_or_raise :: "env \<Rightarrow> string \<Rightarrow> error + pyval" where
  "get_or_raise s name =
     (case symbols_get s name of
        NoneV \<Rightarrow> Inl (UnresolvedIdentifier name)
      | v \<Rightarrow> Inr v)"

text \<open>\<open>LogMixin.log\<close>: prints the value of a standalone node; the value is returned as it is.\<close>

definition log :: "bool \<Rightarrow> pyval \<Rightarrow> env \<Rightarrow> env" where
  "log standalone v s = (if standalone then s\<lparr>printed := printed s @ [v]\<rparr> else s)"

definition ARITHMETIC_OP_MAPPINGS :: "string \<rightharpoonup> (pyval \<Rightarrow> pyval \<Rightarrow> error + pyval)" where
  "ARITHMETIC_OP_MAPPINGS =
     [''+'' \<mapsto> py_add, ''-'' \<mapsto> py_sub, ''*'' \<mapsto> py_mul, ''/'' \<mapsto> py_truediv]"

definition COMP_OP_MAPPINGS :: "string \<rightharpoonup> (pyval \<Rightarrow> pyval \<Rightarrow> error + pyval)" where
  "COMP_OP_MAPPINGS = [''>'' \<mapsto> py_gt, ''<'' \<mapsto> py_lt]"

subsection \<open>Evaluation\<close>

text \<open>
  \<open>eval\<close> is the method \<open>eval\<close> of every node class. \<open>eval_block\<close> is the loop
  \<open>for node in block: node.eval(env)\<close>, \<open>eval_elifs\<close> the loop of \<open>IfStatement.eval\<close> over
  \<open>elseif_statements\<close> (\<open>True\<close> when it returned \<open>True\<close>), and \<open>repeat_loop k\<close> the
  loop of \<open>Repeat.eval\<close> over a \<open>range\<close> of \<open>k\<close> values.
\<close>

fun eval :: "node \<Rightarrow> env \<Rightarrow> error + (pyval \<times> env)"
  and eval_block :: "node list \<Rightarrow> env \<Rightarrow> error + env"
  and eval_elifs :: "node list \<Rightarrow> env \<Rightarrow> error + (bool \<times> env)"
  and repeat_loop :: "nat \<Rightarrow> node list \<Rightarrow> env \<Rightarrow> error + env"
where
  "eval (Module statements) s =
     bindE (eval_block statements s) (\<lambda>s1. Inr (NoneV, s1))"
| "eval (Reference name standalone) s =
     bindE (get_or_raise s name) (\<lambda>v. Inr (v, log standalone v s))"
| "eval (Literal v standalone) s = Inr (IntV v, log standalone (IntV v) s)"
| "eval (ArithmeticOp left op right standalone) s =
     (case ARITHMETIC_OP_MAPPINGS op of
        None \<Rightarrow> Inl (KeyError op)
      | Some f \<Rightarrow>
          bindE (eval left s) (\<lambda>(x, s1).
          bindE (eval right s1) (\<lambda>(y, s2).
          bindE (f x y) (\<lambda>v. Inr (v, log standalone v s2)))))"
| "eval (CompOp left op right) s =
     (case COMP_OP_MAPPINGS op of
        None \<Rightarrow> Inl (KeyError op)
      | Some f \<Rightarrow>
          bindE (eval left s) (\<lambda>(x, s1).
          bindE (eval right s1) (\<lambda>(y, s2).
          bindE (f x y) (\<lambda>v. Inr (v, s2)))))"
| "eval (Assignment name val) s =
     bindE (eval val s) (\<lambda>(v, s1). Inr (NoneV, add name v s1))"
| "eval (Ternary condition if_truthy if_falsy) s =
     bindE (eval condition s) (\<lambda>(c, s1).
       if truthy c then eval if_truthy s1 else eval if_falsy s1)"
| "eval (IfStatement condition block elseif_statements else_block) s =
     bindE (eval condition s) (\<lambda>(c, s1).
       if truthy c then bindE (eval_block block s1) (\<lambda>s2. Inr (BoolV True, s2))
       else
         bindE (eval_elifs elseif_statements s1) (\<lambda>(handled, s2).
           if handled then Inr (BoolV True, s2)
           else bindE (eval_block else_block s2) (\<lambda>s3. Inr (BoolV False, s3))))"
| "eval (Repeat times' block) s =
     bindE (eval times' s) (\<lambda>(n, s1).
     bindE (range_len n) (\<lambda>k.
     bindE (repeat_loop k block s1) (\<lambda>s2. Inr (NoneV, s2))))"
| "eval_block [] s = Inr s"
| "eval_block (n # ns) s = bindE (eval n s) (\<lambda>(v, s1). eval_block ns s1)"
| "eval_elifs [] s = Inr (False, s)"
| "eval_elifs (n # ns) s =
     bindE (eval n s) (\<lambda>(v, s1). if truthy v then Inr (True, s1) else eval_elifs ns s1)"
| "repeat_loop 0 block s = Inr s"
| "repeat_loop (Suc k) block s = bindE (eval_block block s) (\<lambda>s1. repeat_loop k block s1)"

subsection \<open>Rendering\<close>

text \<open>Characters that a string literal cannot hold, and the Python string operations used.\<close>

definition nl :: string where
  "nl = [CHR 0x0A]"

definition dq :: string where
  "dq = [CHR 0x22]"

definition backslash_n :: string where
  "backslash_n = [CHR 0x5C, CHR ''n'']"

definition u_umlaut :: string where
  "u_umlaut = [CHR 0xFC]"

text \<open>\<open>' ' * indent\<close>: empty for a negative \<open>indent\<close>.\<close>

definition spaces :: "int \<Rightarrow> string" where
  "spaces indent = replicate (nat indent) CHR '' ''"

text \<open>\<open>x in y\<close> on two strings: \<open>x\<close> occurs in \<open>y\<close> as a substring.\<close>

definition str_in :: "string \<Rightarrow> string \<Rightarrow> bool" where
  "str_in x y = list_ex (\<lambda>i. take (length x) (drop i y) = x) [0..<Suc (length y)]"

definition digit_char :: "nat \<Rightarrow> char" where
  "digit_char d = char_of (of_char CHR ''0'' + d)"

fun str_nat :: "nat \<Rightarrow> string" where
  "str_nat n = (if n < 10 then [digit_char n] else str_nat (n div 10) @ [digit_char (n mod 10)])"

text \<open>\<open>str(i)\<close> of an int.\<close>

definition str_int :: "int \<Rightarrow> string" where
  "str_int i = (if i < 0 then ''-'' @ str_nat (nat (- i)) else str_nat (nat i))"

text \<open>
  \<open>str(v)\<close>, as an f-string formats a value. The text of a float is Python's shortest
  round-trip representation, which the model takes as the parameter \<open>float_repr\<close>.
\<close>

fun py_str :: "(pyfloat \<Rightarrow> string) \<Rightarrow> pyval \<Rightarrow> string" where
  "py_str float_repr NoneV = ''None''"
| "py_str float_repr (IntV i) = str_int i"
| "py_str float_repr (BoolV b) = (if b then ''True'' else ''False'')"
| "py_str float_repr (FloatV f) = float_repr f"

text \<open>\<open>getattr(node, "op", "None")\<close>.\<close>

fun getattr_op :: "node \<Rightarrow> string" where
  "getattr_op (ArithmeticOp left op right standalone) = op"
| "getattr_op (CompOp left op right) = op"
| "getattr_op _ = ''None''"

text \<open>
  \<open>Repeat._new_id\<close>: draws identifiers until one is not a key with a value. The draws are
  the list \<open>rand_ids\<close>; the rest of the list is returned with the identifier.
\<close>

fun new_id_loop :: "string list \<Rightarrow> env \<Rightarrow> error + (string \<times> string list)" where
  "new_id_loop [] s = Inl IdSupplyExhausted"
| "new_id_loop (c # cs) s = (if symbols_get s c \<noteq> NoneV then new_id_loop cs s else Inr (c, cs))"

definition new_id :: "env \<Rightarrow> error + (string \<times> env)" where
  "new_id s = bindE (new_id_loop (rand_ids s) s) (\<lambda>(c, cs). Inr (c, s\<lparr>rand_ids := cs\<rparr>))"

definition module_head :: string where
  "module_head =
     ''#include <stdio.h>'' @ nl @ ''#include <time.h>'' @ nl @ nl @ ''int main() {'' @ nl"

definition module_lines :: "string list" where
  "module_lines =
     [''double elapsed_time = (double)(clock() - start_time) / CLOCKS_PER_SEC;'' @ nl,
      ''printf('' @ dq @ ''Ausgef'' @ u_umlaut @ ''hrt in %f Sekunden.'' @ backslash_n @ dq
        @ '', elapsed_time);'' @ nl,
      ''return 0;'' @ nl]"

text \<open>\<open>sep.join(xs)\<close>.\<close>

fun join :: "string \<Rightarrow> string list \<Rightarrow> string" where
  "join sep [] = []"
| "join sep [x] = x"
| "join sep (x # y # ys) = x @ sep @ join sep (y # ys)"

text \<open>The text a standalone node renders to: \<open>printf("<fmt>\n"<args>);\<close> after the indent.\<close>

definition printf_line :: "int \<Rightarrow> string \<Rightarrow> string \<Rightarrow> string" where
  "printf_line indent fmt args =
     spaces indent @ ''printf('' @ dq @ fmt @ backslash_n @ dq @ args @ '');''"

text \<open>
  \<open>compile\<close> is the method \<open>compile\<close> of every node class; it returns the text and the
  environment, which \<open>Assignment.compile\<close> and \<open>Repeat.compile\<close> change. The three loops
  carry the text built so far: \<open>compile_block\<close> is
  \<open>for node in block: code += "\n" + node.compile(env, indent)\<close>, \<open>compile_statements\<close> the
  loop of \<open>Module.compile\<close> and \<open>compile_elifs\<close> the loop over \<open>elseif_statements\<close>.
\<close>

function (sequential) compile :: "(pyfloat \<Rightarrow> string) \<Rightarrow> node \<Rightarrow> int \<Rightarrow> env \<Rightarrow> error + (string \<times> env)"
  and compile_block ::
    "(pyfloat \<Rightarrow> string) \<Rightarrow> node list \<Rightarrow> int \<Rightarrow> string \<Rightarrow> env \<Rightarrow> error + (string \<times> env)"
  and compile_statements ::
    "(pyfloat \<Rightarrow> string) \<Rightarrow> node list \<Rightarrow> int \<Rightarrow> string \<Rightarrow> env \<Rightarrow> error + (string \<times> env)"
  and compile_elifs ::
    "(pyfloat \<Rightarrow> string) \<Rightarrow> node list \<Rightarrow> int \<Rightarrow> string \<Rightarrow> env \<Rightarrow> error + (string \<times> env)"
where
  "compile fr (Module statements) indent s =
     (let code = module_head; indent = indent + 4;
          code = code @ spaces indent @ ''clock_t start_time = clock();'' @ nl
      in bindE (compile_statements fr statements indent code s) (\<lambda>(code, s1).
           Inr (code @ spaces indent @ join (spaces indent) module_lines @ ''}'', s1)))"
| "compile fr (Reference name standalone) indent s =
     bindE (get_or_raise s name) (\<lambda>_.
       if standalone then Inr (printf_line indent ''%i'' ('', '' @ name), s)
       else Inr (name, s))"
| "compile fr (Literal v standalone) indent s =
     (if standalone then Inr (printf_line indent (str_int v) [], s)
      else Inr (str_int v, s))"
| "compile fr (ArithmeticOp left op right standalone) indent s =
     bindE (compile fr left indent s) (\<lambda>(l, s1).
       let code = l @ '' '' @ op @ '' '' in
       bindE (if str_in op ''*/'' \<and> str_in (getattr_op right) ''+-''
              then bindE (compile fr right indent s1) (\<lambda>(r, s2). Inr (code @ ''('' @ r @ '')'', s2))
              else bindE (compile fr right indent s1) (\<lambda>(r, s2). Inr (code @ r, s2)))
         (\<lambda>(code, s2).
            if standalone then Inr (printf_line indent ''%i'' ('', '' @ code), s2)
            else Inr (code, s2)))"
| "compile fr (CompOp left op right) indent s =
     bindE (compile fr left indent s) (\<lambda>(l, s1).
     bindE (compile fr right indent s1) (\<lambda>(r, s2).
       Inr (l @ '' '' @ op @ '' '' @ r, s2)))"
| "compile fr (Assignment name val) indent s =
     bindE (if symbols_get s name = NoneV
            then bindE (eval val s) (\<lambda>(v, s1). Inr (''int '', add name v s1))
            else Inr ([], s))
       (\<lambda>(ty, s1).
          bindE (compile fr val indent s1) (\<lambda>(c, s2).
            Inr (spaces indent @ ty @ name @ '' = '' @ c @ '';'', s2)))"
| "compile fr (Ternary condition if_truthy if_falsy) indent s =
     bindE (compile fr condition indent s) (\<lambda>(c, s1).
     bindE (compile fr if_truthy indent s1) (\<lambda>(t, s2).
     bindE (compile fr if_falsy indent s2) (\<lambda>(f, s3).
       Inr (c @ '' ? '' @ t @ '' : '' @ f, s3))))"
| "compile fr (IfStatement condition block elseif_statements else_block) indent s =
     bindE (compile fr condition indent s) (\<lambda>(c, s1).
     bindE (compile_block fr block (indent + 4) (spaces indent @ ''if ('' @ c @ '') {'') s1)
       (\<lambda>(code, s2).
     bindE (compile_elifs fr elseif_statements indent (code @ nl @ spaces indent @ ''}'') s2)
       (\<lambda>(code, s3).
       if else_block \<noteq> []
       then bindE (compile_block fr else_block (indent + 4)
                     (code @ nl @ spaces indent @ ''else {'') s3)
              (\<lambda>(code, s4). Inr (code @ nl @ spaces indent @ ''}'', s4))
       else Inr (code, s3))))"
| "compile fr (Repeat times' block) indent s =
     bindE (new_id s) (\<lambda>(id', s1).
     bindE (eval times' s1) (\<lambda>(n, s2).
     bindE (compile_block fr block (indent + 4)
              (spaces indent @ ''for (int '' @ id' @ '' = 0; '' @ id' @ '' < '' @ py_str fr n
                 @ ''; '' @ id' @ ''++) {'') s2) (\<lambda>(code, s3).
       Inr (code @ nl @ spaces indent @ ''}'', s3))))"
| "compile_block fr [] indent code s = Inr (code, s)"
| "compile_block fr (n # ns) indent code s =
     bindE (compile fr n indent s) (\<lambda>(c, s1). compile_block fr ns indent (code @ nl @ c) s1)"
| "compile_statements fr [] indent code s = Inr (code, s)"
| "compile_statements fr (n # ns) indent code s =
     bindE (compile fr n indent s) (\<lambda>(c, s1). compile_statements fr ns indent (code @ c @ nl) s1)"
| "compile_elifs fr [] indent code s = Inr (code, s)"
| "compile_elifs fr (n # ns) indent code s =
     bindE (compile fr n indent s) (\<lambda>(c, s1).
       compile_elifs fr ns indent (code @ nl @ spaces indent @ ''else '' @ c) s1)"
  by pat_completeness auto
termination
  by (relation "measure (\<lambda>x. case x of
        Inl (Inl (fr, n, i, s)) \<Rightarrow> size n
      | Inl (Inr (fr, ns, i, c, s)) \<Rightarrow> size_list size ns
      | Inr (Inl (fr, ns, i, c, s)) \<Rightarrow> size_list size ns
      | Inr (Inr (fr, ns, i, c, s)) \<Rightarrow> size_list size ns)") auto

section \<open>The parser (lang/parser.py)\<close>

text \<open>
  The state of a \<open>Parser\<close> is the list of the tokens from \<open>self.pos\<close> on; a method returns
  its result with the tokens left, or the error it raised.

  The methods call each other recursively, and their loops read tokens the called method
  leaves, so each function takes a bound on the depth of the calls (the first argument),
  and returns \<open>Inl OutOfFuel\<close> when the bound is used up. A result other than that is the
  result of the method.
\<close>

type_synonym 'a parsed = "error + ('a \<times> Token list)"

definition get_token :: "Token list \<Rightarrow> Token option" where
  "get_token ts = (case ts of [] \<Rightarrow> None | t # _ \<Rightarrow> Some t)"

definition eat :: "TokenType list \<Rightarrow> Token list \<Rightarrow> error + Token list" where
  "eat token_types ts =
     (case ts of
        [] \<Rightarrow> Inl EOFError
      | curr_token # rest \<Rightarrow>
          if type curr_token \<notin> Some ` set token_types
          then Inl (Expected token_types (tvalue curr_token) (line curr_token) (col curr_token))
          else Inr rest)"

definition NOT_R_BRACE_CONDITION :: "Token \<Rightarrow> bool" where
  "NOT_R_BRACE_CONDITION t = (type t \<noteq> Some R_BRACE)"

text \<open>\<open>s * k\<close> on a string: \<open>k\<close> copies, none for \<open>k \<le> 0\<close>.\<close>

definition str_mul :: "string \<Rightarrow> int \<Rightarrow> string" where
  "str_mul s k = concat (replicate (nat k) s)"

text \<open>
  \<open>TOKEN_NODE_MAPPING[token.type](token.value * factor)\<close>, after \<open>eat\<close> has accepted the
  token as an \<open>INT\<close> or an \<open>ID\<close>.
\<close>

definition token_node :: "Token \<Rightarrow> int \<Rightarrow> error + node" where
  "token_node token k =
     (case (type token, tvalue token) of
        (Some INT_T, IntVal i) \<Rightarrow> Inr (Literal (i * k) False)
      | (Some ID, StrVal s) \<Rightarrow> Inr (Reference (str_mul s k) False)
      | _ \<Rightarrow> Inl IllTypedToken)"

text \<open>\<open>token.value\<close> where the code uses it as a string (an operator, a name).\<close>

definition str_value :: "Token \<Rightarrow> error + string" where
  "str_value token = (case tvalue token of StrVal s \<Rightarrow> Inr s | IntVal _ \<Rightarrow> Inl IllTypedToken)"

text \<open>
  \<open>factor\<close>, \<open>mult\<close> and \<open>expr\<close>; \<open>mult_loop\<close> and \<open>expr_loop\<close> are the \<open>while\<close> loops of
  \<open>mult\<close> and \<open>expr\<close>, with the node built so far.
\<close>

fun factor :: "nat \<Rightarrow> Token list \<Rightarrow> node parsed"
  and mult :: "nat \<Rightarrow> Token list \<Rightarrow> node parsed"
  and mult_loop :: "nat \<Rightarrow> node \<Rightarrow> Token list \<Rightarrow> node parsed"
  and expr :: "nat \<Rightarrow> Token list \<Rightarrow> node parsed"
  and expr_loop :: "nat \<Rightarrow> node \<Rightarrow> Token list \<Rightarrow> node parsed"
where
  "factor 0 ts = Inl OutOfFuel"
| "factor (Suc n) ts =
     (case get_token ts of
        None \<Rightarrow> Inl FactorError
      | Some token \<Rightarrow>
          if type token = Some L_PAREN then
            bindE (eat [L_PAREN] ts) (\<lambda>ts1.
            bindE (expr n ts1) (\<lambda>(expression_node, ts2).
            bindE (eat [R_PAREN] ts2) (\<lambda>ts3.
              Inr (expression_node, ts3))))
          else
            bindE (if type token = Some MINUS
                   then bindE (eat [MINUS] ts) (\<lambda>ts1. Inr (- 1, ts1))
                   else Inr (1, ts)) (\<lambda>(k, ts1).
            bindE (if type token = Some PLUS then eat [PLUS] ts1 else Inr ts1) (\<lambda>ts2.
            bindE (eat [INT_T, ID] ts2) (\<lambda>ts3.
              case get_token ts2 of
                None \<Rightarrow> Inl EOFError
              | Some token \<Rightarrow> bindE (token_node token k) (\<lambda>node. Inr (node, ts3))))))"
| "mult 0 ts = Inl OutOfFuel"
| "mult (Suc n) ts = bindE (factor n ts) (\<lambda>(node, ts1). mult_loop n node ts1)"
| "mult_loop 0 node ts = Inl OutOfFuel"
| "mult_loop (Suc n) node ts =
     (case get_token ts of
        None \<Rightarrow> Inr (node, ts)
      | Some token \<Rightarrow>
          if type token \<in> {Some MUL, Some DIV} then
            bindE (eat [the (type token)] ts) (\<lambda>ts1.
            bindE (str_value token) (\<lambda>op.
            bindE (factor n ts1) (\<lambda>(right, ts2).
              mult_loop n (ArithmeticOp node op right False) ts2)))
          else Inr (node, ts))"
| "expr 0 ts = Inl OutOfFuel"
| "expr (Suc n) ts = bindE (mult n ts) (\<lambda>(node, ts1). expr_loop n node ts1)"
| "expr_loop 0 node ts = Inl OutOfFuel"
| "expr_loop (Suc n) node ts =
     (case get_token ts of
        None \<Rightarrow> Inr (node, ts)
      | Some token \<Rightarrow>
          if type token \<in> {Some PLUS, Some MINUS} then
            bindE (eat [the (type token)] ts) (\<lambda>ts1.
            bindE (str_value token) (\<lambda>op.
            bindE (mult n ts1) (\<lambda>(right, ts2).
              expr_loop n (ArithmeticOp node op right False) ts2)))
          else Inr (node, ts))"

text \<open>\<open>comparison_expr\<close> and its \<open>while\<close> loop.\<close>

fun comparison_loop :: "nat \<Rightarrow> node \<Rightarrow> Token list \<Rightarrow> node parsed" where
  "comparison_loop 0 node ts = Inl OutOfFuel"
| "comparison_loop (Suc n) node ts =
     (case get_token ts of
        None \<Rightarrow> Inr (node, ts)
      | Some token \<Rightarrow>
          if type token \<in> {Some GT, Some LT} then
            bindE (eat [the (type token)] ts) (\<lambda>ts1.
            bindE (str_value token) (\<lambda>op.
            bindE (expr n ts1) (\<lambda>(right, ts2).
              comparison_loop n (CompOp node op right) ts2)))
          else Inr (node, ts))"

definition comparison_expr :: "nat \<Rightarrow> Token list \<Rightarrow> node parsed" where
  "comparison_expr n ts = bindE (expr n ts) (\<lambda>(node, ts1). comparison_loop n node ts1)"

text \<open>\<open>ternary(condition)\<close>: \<open>condition or self.comparison_expr()\<close>; a node is never falsy.\<close>

definition ternary :: "nat \<Rightarrow> node option \<Rightarrow> Token list \<Rightarrow> node parsed" where
  "ternary n condition ts =
     bindE (case condition of Some c \<Rightarrow> Inr (c, ts) | None \<Rightarrow> comparison_expr n ts)
       (\<lambda>(condition, ts1).
     bindE (eat [TERNARY] ts1) (\<lambda>ts2.
     bindE (expr n ts2) (\<lambda>(if_truthy, ts3).
     bindE (eat [COLON] ts3) (\<lambda>ts4.
     bindE (expr n ts4) (\<lambda>(if_falsy, ts5).
       Inr (Ternary condition if_truthy if_falsy, ts5))))))"

text \<open>\<open>isinstance(value, ast.CompOp)\<close>.\<close>

fun is_CompOp :: "node \<Rightarrow> bool" where
  "is_CompOp (CompOp left op right) = True"
| "is_CompOp _ = False"

definition assignment :: "nat \<Rightarrow> Token list \<Rightarrow> node parsed" where
  "assignment n ts =
     bindE (eat [LET] ts) (\<lambda>ts1.
     bindE (eat [ID] ts1) (\<lambda>ts2.
     bindE (eat [EQUAL] ts2) (\<lambda>ts3.
     bindE (comparison_expr n ts3) (\<lambda>(val, ts4).
     bindE (case get_token ts4 of
              None \<Rightarrow> Inr (val, ts4)
            | Some tern_token \<Rightarrow>
                if type tern_token = Some TERNARY then ternary n (Some val) ts4
                else Inr (val, ts4)) (\<lambda>(val, ts5).
       if is_CompOp val then Inl AssignToComparison
       else
         case get_token ts1 of
           None \<Rightarrow> Inl EOFError
         | Some token \<Rightarrow> bindE (str_value token) (\<lambda>name. Inr (Assignment name val, ts5)))))))"

text \<open>\<open>node.standalone = True\<close>; only the three \<open>LogMixin\<close> classes read the attribute.\<close>

fun set_standalone :: "node \<Rightarrow> node" where
  "set_standalone (Reference name _) = Reference name True"
| "set_standalone (Literal v _) = Literal v True"
| "set_standalone (ArithmeticOp left op right _) = ArithmeticOp left op right True"
| "set_standalone node = node"

text \<open>
  \<open>statements\<close>, \<open>repeat\<close> and \<open>if_statement\<close>. \<open>statements_loop\<close> is the \<open>while\<close> loop of
  \<open>statements\<close> with the list \<open>stats\<close>, and \<open>elif_loop\<close> the loop of \<open>if_statement\<close> with
  the list \<open>elif_statements\<close>.
\<close>

fun statements_loop :: "nat \<Rightarrow> (Token \<Rightarrow> bool) \<Rightarrow> node list \<Rightarrow> Token list \<Rightarrow> (node list) parsed"
  and repeat :: "nat \<Rightarrow> Token list \<Rightarrow> node parsed"
  and if_statement :: "nat \<Rightarrow> Token list \<Rightarrow> node parsed"
  and elif_loop :: "nat \<Rightarrow> node list \<Rightarrow> Token list \<Rightarrow> (node list) parsed"
where
  "statements_loop 0 condition stats ts = Inl OutOfFuel"
| "statements_loop (Suc n) condition stats ts =
     (case get_token ts of
        None \<Rightarrow> Inr (stats, ts)
      | Some token \<Rightarrow>
          if \<not> condition token then Inr (stats, ts)
          else if type token \<in> {Some INT_T, Some ID, Some L_PAREN} then
            bindE (expr n ts) (\<lambda>(node, ts1).
            bindE (eat [SEMICOLON] ts1) (\<lambda>ts2.
              statements_loop n condition (stats @ [set_standalone node]) ts2))
          else if type token = Some LET then
            bindE (assignment n ts) (\<lambda>(node, ts1).
            bindE (eat [SEMICOLON] ts1) (\<lambda>ts2.
              statements_loop n condition (stats @ [node]) ts2))
          else if type token = Some REPEAT then
            bindE (repeat n ts) (\<lambda>(node, ts1).
              statements_loop n condition (stats @ [node]) ts1)
          else if type token = Some IF then
            bindE (if_statement n ts) (\<lambda>(node, ts1).
              statements_loop n condition (stats @ [node]) ts1)
          else Inl StatementError)"
| "repeat 0 ts = Inl OutOfFuel"
| "repeat (Suc n) ts =
     bindE (eat [REPEAT] ts) (\<lambda>ts1.
     bindE (expr n ts1) (\<lambda>(times', ts2).
     bindE (eat [L_BRACE] ts2) (\<lambda>ts3.
     bindE (statements_loop n NOT_R_BRACE_CONDITION [] ts3) (\<lambda>(block, ts4).
     bindE (eat [R_BRACE] ts4) (\<lambda>ts5.
       Inr (Repeat times' block, ts5))))))"
| "if_statement 0 ts = Inl OutOfFuel"
| "if_statement (Suc n) ts =
     bindE (eat [IF, ELIF] ts) (\<lambda>ts1.
     bindE (comparison_expr n ts1) (\<lambda>(condition, ts2).
     bindE (eat [L_BRACE] ts2) (\<lambda>ts3.
     bindE (statements_loop n NOT_R_BRACE_CONDITION [] ts3) (\<lambda>(stats, ts4).
     bindE (eat [R_BRACE] ts4) (\<lambda>ts5.
     bindE (elif_loop n [] ts5) (\<lambda>(elif_statements, ts6).
     bindE (case get_token ts6 of
              None \<Rightarrow> Inr ([], ts6)
            | Some token \<Rightarrow>
                if type token = Some ELSE then
                  bindE (eat [ELSE] ts6) (\<lambda>ts7.
                  bindE (eat [L_BRACE] ts7) (\<lambda>ts8.
                  bindE (statements_loop n NOT_R_BRACE_CONDITION [] ts8) (\<lambda>(else_block, ts9).
                  bindE (eat [R_BRACE] ts9) (\<lambda>ts10.
                    Inr (else_block, ts10)))))
                else Inr ([], ts6)) (\<lambda>(else_block, ts11).
       Inr (IfStatement condition stats elif_statements else_block, ts11))))))))"
| "elif_loop 0 elif_statements ts = Inl OutOfFuel"
| "elif_loop (Suc n) elif_statements ts =
     (case get_token ts of
        None \<Rightarrow> Inr (elif_statements, ts)
      | Some token \<Rightarrow>
          if type token = Some ELIF then
            bindE (if_statement n ts) (\<lambda>(node, ts1).
              elif_loop n (elif_statements @ [node]) ts1)
          else Inr (elif_statements, ts))"

declare factor.simps(2) [simp del] mult.simps(2) [simp del] mult_loop.simps(2) [simp del]
  expr.simps(2) [simp del] expr_loop.simps(2) [simp del] comparison_loop.simps(2) [simp del]
  statements_loop.simps(2) [simp del] repeat.simps(2) [simp del] if_statement.simps(2) [simp del]
  elif_loop.simps(2) [simp del]

text \<open>\<open>statements(condition)\<close>, with the empty list \<open>stats\<close> it starts from.\<close>

definition statements :: "nat \<Rightarrow> (Token \<Rightarrow> bool) \<Rightarrow> Token list \<Rightarrow> (node list) parsed" where
  "statements n condition ts = statements_loop n condition [] ts"

text \<open>\<open>Parser(tokens).parse()\<close>: the default condition of \<open>statements\<close> holds of every token.\<close>

definition parse :: "nat \<Rightarrow> Token list \<Rightarrow> error + node" where
  "parse n tokens = bindE (statements n (\<lambda>_. True) tokens) (\<lambda>(stats, _). Inr (Module stats))"

section \<open>The two programs (lang/interpreter.py, lang/compiler.py)\<close>

text \<open>
  \<open>SymbolTable()\<close>, with nothing printed yet and the identifiers \<open>ids\<close> that
  \<open>random.sample\<close> is going to give.
\<close>

definition new_env :: "string list \<Rightarrow> env" where
  "new_env ids = \<lparr>symbols = Map.empty, printed = [], rand_ids = ids\<rparr>"

text \<open>
  The interpreter lexes, parses and evaluates a text; on the empty text it exits at once.
  The result is the environment at the end, with everything printed.
\<close>

definition interpreter :: "nat \<Rightarrow> string \<Rightarrow> error + env" where
  "interpreter n source =
     (if source = [] then Inr (new_env [])
      else
        bindE (tokenize source) (\<lambda>tokens.
        bindE (parse n tokens) (\<lambda>mod'.
        bindE (eval mod' (new_env [])) (\<lambda>(_, s). Inr s))))"

text \<open>The compiler renders the parsed module at indent 0; the result is the text of \<open>out.c\<close>.\<close>

definition compile_source ::
  "nat \<Rightarrow> (pyfloat \<Rightarrow> string) \<Rightarrow> string list \<Rightarrow> string \<Rightarrow> error + string option" where
  "compile_source n fr ids source =
     (if source = [] then Inr None
      else
        bindE (tokenize source) (\<lambda>tokens.
        bindE (parse n tokens) (\<lambda>mod'.
        bindE (compile fr mod' 0 (new_env ids)) (\<lambda>(code, _). Inr (Some code)))))"

text \<open>
  The result of a method at one recursion bound against its result at a larger one:
  either the smaller bound was used up, or the two results are the same.
\<close>

definition fuel_le :: "error + 'a \<Rightarrow> error + 'a \<Rightarrow> bool" where
  "fuel_le a b = (a = Inl OutOfFuel \<or> a = b)"

section \<open>Names the program can bind\<close>

text \<open>
  Two notions for the claim on the empty name: a tree in which no \<open>Assignment\<close> binds the
  empty string, and an environment in which the empty string has no value.
\<close>

fun assigns_nonempty :: "node \<Rightarrow> bool" where
  "assigns_nonempty (Module stats) = list_all assigns_nonempty stats"
| "assigns_nonempty (Reference name standalone) = True"
| "assigns_nonempty (Literal v standalone) = True"
| "assigns_nonempty (ArithmeticOp left op right standalone) =
     (assigns_nonempty left \<and> assigns_nonempty right)"
| "assigns_nonempty (CompOp left op right) = (assigns_nonempty left \<and> assigns_nonempty right)"
| "assigns_nonempty (Assignment name val) = (name \<noteq> [] \<and> assigns_nonempty val)"
| "assigns_nonempty (Ternary condition if_truthy if_falsy) =
     (assigns_nonempty condition \<and> assigns_nonempty if_truthy \<and> assigns_nonempty if_falsy)"
| "assigns_nonempty (IfStatement condition block elseif_statements else_block) =
     (assigns_nonempty condition \<and> list_all assigns_nonempty block \<and>
      list_all assigns_nonempty elseif_statements \<and> list_all assigns_nonempty else_block)"
| "assigns_nonempty (Repeat times' block) =
     (assigns_nonempty times' \<and> list_all assigns_nonempty block)"

definition empty_unbound :: "env \<Rightarrow> bool" where
  "empty_unbound s = (symbols_get s [] = NoneV)"

text \<open>
  A token is named when its value is not the empty string; \<open>node_ok\<close> and \<open>nodes_ok\<close> say
  of the result of a parser method that no assignment in it binds the empty string and
  that the tokens left are named.
\<close>

definition named :: "Token \<Rightarrow> bool" where
  "named t = (tvalue t \<noteq> StrVal [])"

definition node_ok :: "node \<times> Token list \<Rightarrow> bool" where
  "node_ok r = (assigns_nonempty (fst r) \<and> list_all named (snd r))"

definition nodes_ok :: "node list \<times> Token list \<Rightarrow> bool" where
  "nodes_ok r = (list_all assigns_nonempty (fst r) \<and> list_all named (snd r))"

text \<open>
  The environments a program can reach: a fresh one, and every environment that evaluating
  or rendering a tree leaves, when no assignment of the tree binds the empty string.
\<close>

inductive reachable :: "env \<Rightarrow> bool" where
  fresh: "reachable (new_env ids)"
| evaluated: "reachable s \<Longrightarrow> assigns_nonempty node \<Longrightarrow> eval node s = Inr (v, s') \<Longrightarrow> reachable s'"
| rendered:
    "reachable s \<Longrightarrow> assigns_nonempty node \<Longrightarrow> compile fr node indent s = Inr (out, s') \<Longrightarrow>
     reachable s'"

section \<open>Notions of the specification\<close>


text \<open>
  The shape of a conditional \<open>if c0 { .. } elif c1 { .. } ... else { .. }\<close> in the tokens.
  \<open>clause\<close> reads one clause, \<open>if c { .. }\<close> or \<open>elif c { .. }\<close>, as \<open>if_statement\<close>
  reads it first, and returns its condition and block; \<open>else_part\<close> reads the block of an
  \<open>else\<close>, or nothing where no \<open>else\<close> stands, as \<open>if_statement\<close> reads it last.
\<close>

definition clause :: "nat \<Rightarrow> Token list \<Rightarrow> (node \<times> node list) parsed" where
  "clause n ts =
     bindE (eat [IF, ELIF] ts) (\<lambda>ts1.
     bindE (comparison_expr n ts1) (\<lambda>(condition, ts2).
     bindE (eat [L_BRACE] ts2) (\<lambda>ts3.
     bindE (statements_loop n NOT_R_BRACE_CONDITION [] ts3) (\<lambda>(stats, ts4).
     bindE (eat [R_BRACE] ts4) (\<lambda>ts5.
       Inr ((condition, stats), ts5))))))"

definition else_part :: "nat \<Rightarrow> Token list \<Rightarrow> (node list) parsed" where
  "else_part n ts =
     (case get_token ts of
        None \<Rightarrow> Inr ([], ts)
      | Some token \<Rightarrow>
          if type token = Some ELSE then
            bindE (eat [ELSE] ts) (\<lambda>ts7.
            bindE (eat [L_BRACE] ts7) (\<lambda>ts8.
            bindE (statements_loop n NOT_R_BRACE_CONDITION [] ts8) (\<lambda>(else_block, ts9).
            bindE (eat [R_BRACE] ts9) (\<lambda>ts10.
              Inr (else_block, ts10)))))
          else Inr ([], ts))"

text \<open>
  \<open>elif_clauses n ts cls rest\<close>: the tokens \<open>ts\<close> start with the \<open>elif\<close> clauses whose
  conditions and blocks are \<open>cls\<close>, in this order, and \<open>rest\<close> follows them.
\<close>

fun elif_clauses :: "nat \<Rightarrow> Token list \<Rightarrow> (node \<times> node list) list \<Rightarrow> Token list \<Rightarrow> bool" where
  "elif_clauses n ts [] rest = (rest = ts)"
| "elif_clauses n ts (cb # cls) rest =
     (case get_token ts of
        None \<Rightarrow> False
      | Some token \<Rightarrow>
          type token = Some ELIF \<and>
          (case clause n ts of
             Inl e \<Rightarrow> False
           | Inr (cb', ts1) \<Rightarrow> cb' = cb \<and> elif_clauses n ts1 cls rest))"

text \<open>
  The chain of nested conditionals of a first clause, the \<open>elif\<close> clauses after it and an
  \<open>else\<close> block: each conditional holds the next one as the one entry of its \<open>elif\<close>
  list, and the last one holds the \<open>else\<close> block.
\<close>

fun chain :: "node \<times> node list \<Rightarrow> (node \<times> node list) list \<Rightarrow> node list \<Rightarrow> node" where
  "chain (c, b) [] els = IfStatement c b [] els"
| "chain (c, b) (cl # cls) els = IfStatement c b [chain cl cls els] []"

section \<open>Basic facts\<close>

lemma bindE_Inl [simp]: "bindE (Inl e) f = Inl e"
  by (simp add: bindE_def)

lemma bindE_Inr [simp]: "bindE (Inr x) f = f x"
  by (simp add: bindE_def)

lemma bindE_eq_Inr: "bindE m f = Inr y \<longleftrightarrow> (\<exists>x. m = Inr x \<and> f x = Inr y)"
  by (cases m) simp_all

lemma bindE_eq_Inl: "bindE m f = Inl e \<longleftrightarrow> m = Inl e \<or> (\<exists>x. m = Inr x \<and> f x = Inl e)"
  by (cases m) simp_all

section \<open>Evaluation of a ternary\<close>

text \<open>
  Claim C5. \<open>Ternary.eval\<close> evaluates the condition and then exactly one branch, in the
  environment the condition left: an error of the condition is the result; when the
  condition is true the result is that of the first branch whatever the second branch
  is, and when it is false that of the second branch whatever the first is. The branch
  not taken is thus never evaluated: an undefined identifier in it raises nothing.
\<close>

theorem Ternary_eval_one_branch:
  "(\<forall>e. eval c s = Inl e \<longrightarrow> eval (Ternary c t f) s = Inl e) \<and>
   (\<forall>v s1. eval c s = Inr (v, s1) \<longrightarrow>
      eval (Ternary c t f) s = (if truthy v then eval t s1 else eval f s1) \<and>
      (truthy v \<longrightarrow> (\<forall>f'. eval (Ternary c t f') s = eval t s1)) \<and>
      (\<not> truthy v \<longrightarrow> (\<forall>t'. eval (Ternary c t' f) s = eval f s1)))"
  by simp

text \<open>
  The ternary \<open>2 < 1 ? undefined : 20\<close> in the empty environment: the condition is false,
  the first branch alone raises, and the ternary yields 20.
\<close>

theorem Ternary_eval_one_branch_witness:
  "eval (CompOp (Literal 2 False) ''<'' (Literal 1 False)) (new_env [])
     = Inr (BoolV False, new_env []) \<and>
   eval (Reference ''undefined'' False) (new_env []) = Inl (UnresolvedIdentifier ''undefined'') \<and>
   eval (Ternary (CompOp (Literal 2 False) ''<'' (Literal 1 False))
           (Reference ''undefined'' False) (Literal 20 False)) (new_env [])
     = Inr (IntV 20, new_env [])"
proof -
  have c: "eval (CompOp (Literal 2 False) ''<'' (Literal 1 False)) (new_env [])
      = Inr (BoolV False, new_env [])"
    by (simp add: COMP_OP_MAPPINGS_def py_lt_def num_float_def fl_signed_def log_def)
  have r: "eval (Reference ''undefined'' False) (new_env [])
      = Inl (UnresolvedIdentifier ''undefined'')"
    by (simp add: get_or_raise_def symbols_get_def new_env_def)
  have f: "eval (Literal 20 False) (new_env []) = Inr (IntV 20, new_env [])"
    by (simp add: log_def)
  from Ternary_eval_one_branch [of "CompOp (Literal 2 False) ''<'' (Literal 1 False)"
      "new_env []" "Reference ''undefined'' False" "Literal 20 False"] c f
  have "eval (Ternary (CompOp (Literal 2 False) ''<'' (Literal 1 False))
           (Reference ''undefined'' False) (Literal 20 False)) (new_env [])
      = Inr (IntV 20, new_env [])"
    by simp
  with c r show ?thesis by simp
qed

section \<open>References\<close>

text \<open>
  Claim C6. A name is absent from the environment when \<open>symbols.get(name)\<close> is \<open>None\<close>,
  which is the test \<open>get_or_raise\<close> makes. For such a name \<open>Reference.eval\<close> and
  \<open>Reference.compile\<close> both fail, with the same unresolved-identifier error, and
  \<open>compile\<close> returns no text. For a name that is present neither fails: \<open>eval\<close> returns
  the value (and prints it when the node is standalone), \<open>compile\<close> returns a text and
  leaves the environment as it is.
\<close>

theorem Reference_unresolved_both_modes:
  "(symbols_get s name = NoneV \<longrightarrow>
      eval (Reference name sa) s = Inl (UnresolvedIdentifier name) \<and>
      compile fr (Reference name sa) indent s = Inl (UnresolvedIdentifier name)) \<and>
   (symbols_get s name \<noteq> NoneV \<longrightarrow>
      eval (Reference name sa) s = Inr (symbols_get s name, log sa (symbols_get s name) s) \<and>
      (\<exists>txt. compile fr (Reference name sa) indent s = Inr (txt, s)))"
  by (cases "symbols_get s name") (simp_all add: get_or_raise_def)

text \<open>After \<open>let x = 5;\<close> the reference \<open>x\<close> evaluates to 5 and renders as \<open>x\<close>; \<open>y\<close> fails in both.\<close>

theorem Reference_unresolved_both_modes_witness:
  "symbols_get (add ''x'' (IntV 5) (new_env [])) ''y'' = NoneV \<and>
   eval (Reference ''y'' False) (add ''x'' (IntV 5) (new_env [])) = Inl (UnresolvedIdentifier ''y'') \<and>
   compile (\<lambda>f. []) (Reference ''y'' False) 0 (add ''x'' (IntV 5) (new_env []))
     = Inl (UnresolvedIdentifier ''y'') \<and>
   symbols_get (add ''x'' (IntV 5) (new_env [])) ''x'' = IntV 5 \<and>
   eval (Reference ''x'' False) (add ''x'' (IntV 5) (new_env []))
     = Inr (IntV 5, add ''x'' (IntV 5) (new_env [])) \<and>
   compile (\<lambda>f. []) (Reference ''x'' False) 0 (add ''x'' (IntV 5) (new_env []))
     = Inr (''x'', add ''x'' (IntV 5) (new_env []))"
proof -
  have y: "symbols_get (add ''x'' (IntV 5) (new_env [])) ''y'' = NoneV"
    by (simp add: symbols_get_def add_def new_env_def)
  have x: "symbols_get (add ''x'' (IntV 5) (new_env [])) ''x'' = IntV 5"
    by (simp add: symbols_get_def add_def new_env_def)
  from Reference_unresolved_both_modes
    [of "add ''x'' (IntV 5) (new_env [])" "''y''" False "\<lambda>f. []" 0] y
  have 1: "eval (Reference ''y'' False) (add ''x'' (IntV 5) (new_env []))
        = Inl (UnresolvedIdentifier ''y'') \<and>
      compile (\<lambda>f. []) (Reference ''y'' False) 0 (add ''x'' (IntV 5) (new_env []))
        = Inl (UnresolvedIdentifier ''y'')"
    by simp
  from Reference_unresolved_both_modes
    [of "add ''x'' (IntV 5) (new_env [])" "''x''" False "\<lambda>f. []" 0] x
  have 2: "eval (Reference ''x'' False) (add ''x'' (IntV 5) (new_env []))
      = Inr (IntV 5, add ''x'' (IntV 5) (new_env []))"
    by (simp add: log_def)
  have 3: "compile (\<lambda>f. []) (Reference ''x'' False) 0 (add ''x'' (IntV 5) (new_env []))
      = Inr (''x'', add ''x'' (IntV 5) (new_env []))"
    using x by (simp add: get_or_raise_def)
  from y x 1 2 3 show ?thesis by simp
qed

section \<open>The recursion bound of the parser\<close>

text \<open>
  A larger bound never changes a result: once a method returns something else than
  \<open>OutOfFuel\<close>, it returns the same at every larger bound.
\<close>

lemma fuel_le_refl [simp]: "fuel_le a a"
  by (simp add: fuel_le_def)

lemma fuel_le_OutOfFuel [simp]: "fuel_le (Inl OutOfFuel) b"
  by (simp add: fuel_le_def)

lemma fuel_le_Inr: "fuel_le a b \<Longrightarrow> a = Inr r \<Longrightarrow> b = Inr r"
  by (auto simp: fuel_le_def)

lemma fuel_le_Inl: "fuel_le a b \<Longrightarrow> a = Inl e \<Longrightarrow> e \<noteq> OutOfFuel \<Longrightarrow> b = Inl e"
  by (auto simp: fuel_le_def)

lemma fuel_le_bindE:
  "fuel_le m m' \<Longrightarrow> (\<And>x. m = Inr x \<Longrightarrow> fuel_le (f x) (f' x)) \<Longrightarrow>
   fuel_le (bindE m f) (bindE m' f')"
  by (cases m) (auto simp: fuel_le_def)

lemma fuel_le_if:
  "(c \<Longrightarrow> fuel_le a a') \<Longrightarrow> (\<not> c \<Longrightarrow> fuel_le b b') \<Longrightarrow>
   fuel_le (if c then a else b) (if c then a' else b')"
  by simp

lemma fuel_le_case_option:
  "fuel_le a a' \<Longrightarrow> (\<And>x. y = Some x \<Longrightarrow> fuel_le (f x) (f' x)) \<Longrightarrow>
   fuel_le (case y of None \<Rightarrow> a | Some x \<Rightarrow> f x) (case y of None \<Rightarrow> a' | Some x \<Rightarrow> f' x)"
  by (cases y) simp_all

lemma fuel_le_case_prod:
  "(\<And>a b. p = (a, b) \<Longrightarrow> fuel_le (f a b) (f' a b)) \<Longrightarrow>
   fuel_le (case p of (a, b) \<Rightarrow> f a b) (case p of (a, b) \<Rightarrow> f' a b)"
  by (cases p) simp

lemmas fuel_le_intros =
  fuel_le_bindE fuel_le_if fuel_le_case_option fuel_le_case_prod fuel_le_refl

lemma expr_fuel_mono:
  "\<forall>m\<ge>n.
     (\<forall>ts. fuel_le (factor n ts) (factor m ts)) \<and>
     (\<forall>ts. fuel_le (mult n ts) (mult m ts)) \<and>
     (\<forall>node ts. fuel_le (mult_loop n node ts) (mult_loop m node ts)) \<and>
     (\<forall>ts. fuel_le (expr n ts) (expr m ts)) \<and>
     (\<forall>node ts. fuel_le (expr_loop n node ts) (expr_loop m node ts))"
proof (induction n)
  case 0
  show ?case by simp
next
  case (Suc n)
  show ?case
  proof (intro allI impI)
    fix m assume "Suc n \<le> m"
    then obtain k where k: "m = Suc k" "n \<le> k"
      by (cases m) auto
    with Suc have f: "\<And>ts. fuel_le (factor n ts) (factor k ts)"
      and m: "\<And>ts. fuel_le (mult n ts) (mult k ts)"
      and ml: "\<And>node ts. fuel_le (mult_loop n node ts) (mult_loop k node ts)"
      and e: "\<And>ts. fuel_le (expr n ts) (expr k ts)"
      and el: "\<And>node ts. fuel_le (expr_loop n node ts) (expr_loop k node ts)"
      by blast+
    have 1: "fuel_le (factor (Suc n) ts) (factor (Suc k) ts)" for ts
      unfolding factor.simps(2) [of n] factor.simps(2) [of k]
      by (intro fuel_le_intros e)
    have 2: "fuel_le (mult (Suc n) ts) (mult (Suc k) ts)" for ts
      unfolding mult.simps(2) [of n] mult.simps(2) [of k]
      by (intro fuel_le_intros f ml)
    have 3: "fuel_le (mult_loop (Suc n) node ts) (mult_loop (Suc k) node ts)" for node ts
      unfolding mult_loop.simps(2) [of n] mult_loop.simps(2) [of k]
      by (intro fuel_le_intros f ml)
    have 4: "fuel_le (expr (Suc n) ts) (expr (Suc k) ts)" for ts
      unfolding expr.simps(2) [of n] expr.simps(2) [of k]
      by (intro fuel_le_intros m el)
    have 5: "fuel_le (expr_loop (Suc n) node ts) (expr_loop (Suc k) node ts)" for node ts
      unfolding expr_loop.simps(2) [of n] expr_loop.simps(2) [of k]
      by (intro fuel_le_intros m el)
    from 1 2 3 4 5 k show
      "(\<forall>ts. fuel_le (factor (Suc n) ts) (factor m ts)) \<and>
       (\<forall>ts. fuel_le (mult (Suc n) ts) (mult m ts)) \<and>
       (\<forall>node ts. fuel_le (mult_loop (Suc n) node ts) (mult_loop m node ts)) \<and>
       (\<forall>ts. fuel_le (expr (Suc n) ts) (expr m ts)) \<and>
       (\<forall>node ts. fuel_le (expr_loop (Suc n) node ts) (expr_loop m node ts))"
      by blast
  qed
qed

lemma expr_fuel: "n \<le> m \<Longrightarrow> fuel_le (expr n ts) (expr m ts)"
  using expr_fuel_mono [of n] by blast

lemma factor_fuel: "n \<le> m \<Longrightarrow> fuel_le (factor n ts) (factor m ts)"
  using expr_fuel_mono [of n] by blast

lemma comparison_loop_fuel:
  "n \<le> m \<Longrightarrow> fuel_le (comparison_loop n node ts) (comparison_loop m node ts)"
proof (induction n arbitrary: m node ts)
  case 0
  show ?case by simp
next
  case (Suc n)
  then obtain k where k: "m = Suc k" "n \<le> k"
    by (cases m) auto
  show ?case
    unfolding k comparison_loop.simps(2) [of n] comparison_loop.simps(2) [of k]
    by (intro fuel_le_intros expr_fuel Suc.IH k)
qed

lemma comparison_expr_fuel:
  "n \<le> m \<Longrightarrow> fuel_le (comparison_expr n ts) (comparison_expr m ts)"
  unfolding comparison_expr_def
  by (intro fuel_le_intros expr_fuel comparison_loop_fuel)

lemma ternary_fuel: "n \<le> m \<Longrightarrow> fuel_le (ternary n c ts) (ternary m c ts)"
  unfolding ternary_def
  by (intro fuel_le_intros expr_fuel comparison_expr_fuel)

lemma assignment_fuel: "n \<le> m \<Longrightarrow> fuel_le (assignment n ts) (assignment m ts)"
  unfolding assignment_def
  by (intro fuel_le_intros comparison_expr_fuel ternary_fuel)

lemma statements_fuel_mono:
  "\<forall>m\<ge>n.
     (\<forall>c stats ts. fuel_le (statements_loop n c stats ts) (statements_loop m c stats ts)) \<and>
     (\<forall>ts. fuel_le (repeat n ts) (repeat m ts)) \<and>
     (\<forall>ts. fuel_le (if_statement n ts) (if_statement m ts)) \<and>
     (\<forall>elifs ts. fuel_le (elif_loop n elifs ts) (elif_loop m elifs ts))"
proof (induction n)
  case 0
  show ?case by simp
next
  case (Suc n)
  show ?case
  proof (intro allI impI)
    fix m assume "Suc n \<le> m"
    then obtain k where k: "m = Suc k" "n \<le> k"
      by (cases m) auto
    with Suc have sl: "\<And>c stats ts. fuel_le (statements_loop n c stats ts) (statements_loop k c stats ts)"
      and r: "\<And>ts. fuel_le (repeat n ts) (repeat k ts)"
      and i: "\<And>ts. fuel_le (if_statement n ts) (if_statement k ts)"
      and el: "\<And>elifs ts. fuel_le (elif_loop n elifs ts) (elif_loop k elifs ts)"
      by blast+
    note ext = expr_fuel [OF k(2)] comparison_expr_fuel [OF k(2)] assignment_fuel [OF k(2)]
    have 1: "fuel_le (statements_loop (Suc n) c stats ts) (statements_loop (Suc k) c stats ts)"
      for c stats ts
      unfolding statements_loop.simps(2) [of n] statements_loop.simps(2) [of k]
      by (intro fuel_le_intros ext sl r i)
    have 2: "fuel_le (repeat (Suc n) ts) (repeat (Suc k) ts)" for ts
      unfolding repeat.simps(2) [of n] repeat.simps(2) [of k]
      by (intro fuel_le_intros ext sl)
    have 3: "fuel_le (if_statement (Suc n) ts) (if_statement (Suc k) ts)" for ts
      unfolding if_statement.simps(2) [of n] if_statement.simps(2) [of k]
      by (intro fuel_le_intros ext sl el)
    have 4: "fuel_le (elif_loop (Suc n) elifs ts) (elif_loop (Suc k) elifs ts)" for elifs ts
      unfolding elif_loop.simps(2) [of n] elif_loop.simps(2) [of k]
      by (intro fuel_le_intros i el)
    from 1 2 3 4 k show
      "(\<forall>c stats ts. fuel_le (statements_loop (Suc n) c stats ts) (statements_loop m c stats ts)) \<and>
       (\<forall>ts. fuel_le (repeat (Suc n) ts) (repeat m ts)) \<and>
       (\<forall>ts. fuel_le (if_statement (Suc n) ts) (if_statement m ts)) \<and>
       (\<forall>elifs ts. fuel_le (elif_loop (Suc n) elifs ts) (elif_loop m elifs ts))"
      by blast
  qed
qed

lemma statements_loop_fuel:
  "n \<le> m \<Longrightarrow> fuel_le (statements_loop n c stats ts) (statements_loop m c stats ts)"
  using statements_fuel_mono [of n] by blast

lemma if_statement_fuel: "n \<le> m \<Longrightarrow> fuel_le (if_statement n ts) (if_statement m ts)"
  using statements_fuel_mono [of n] by blast

lemma elif_loop_fuel: "n \<le> m \<Longrightarrow> fuel_le (elif_loop n elifs ts) (elif_loop m elifs ts)"
  using statements_fuel_mono [of n] by blast

lemma parse_fuel: "n \<le> m \<Longrightarrow> fuel_le (parse n ts) (parse m ts)"
  unfolding parse_def statements_def
  by (intro fuel_le_intros statements_loop_fuel)

section \<open>Only assignments bind names\<close>

lemma symbols_get_log [simp]: "symbols_get (log sa v s) name = symbols_get s name"
  by (simp add: log_def symbols_get_def)

lemma symbols_get_add: "symbols_get (add x v s) name = (if name = x then v else symbols_get s name)"
  by (simp add: add_def symbols_get_def)

lemma bindE_InrE:
  "bindE m f = Inr y \<Longrightarrow> (\<And>x. m = Inr x \<Longrightarrow> f x = Inr y \<Longrightarrow> P) \<Longrightarrow> P"
  by (cases m) simp_all

lemma empty_unbound_log [simp]: "empty_unbound (log sa v s) = empty_unbound s"
  by (simp add: empty_unbound_def)

lemma empty_unbound_add [simp]: "name \<noteq> [] \<Longrightarrow> empty_unbound (add name v s) = empty_unbound s"
  by (simp add: empty_unbound_def symbols_get_add)

lemma eval_keeps_empty_unbound:
  "eval n s = Inr (v, s') \<Longrightarrow> assigns_nonempty n \<Longrightarrow> empty_unbound s \<Longrightarrow> empty_unbound s'"
  "eval_block ns s = Inr s' \<Longrightarrow> list_all assigns_nonempty ns \<Longrightarrow> empty_unbound s \<Longrightarrow> empty_unbound s'"
  "eval_elifs ns s = Inr (h, s') \<Longrightarrow> list_all assigns_nonempty ns \<Longrightarrow> empty_unbound s \<Longrightarrow> empty_unbound s'"
  "repeat_loop k ns s = Inr s' \<Longrightarrow> list_all assigns_nonempty ns \<Longrightarrow> empty_unbound s \<Longrightarrow> empty_unbound s'"
proof (induction n s and ns s and ns s and k ns s arbitrary: v s' and s' and h s' and s'
    rule: eval_eval_block_eval_elifs_repeat_loop.induct)
  case (1 stats s)
  from "1.prems" show ?case
    by (auto elim!: bindE_InrE) ((blast dest: "1.IH")+)?
next
  case (2 name standalone s)
  then show ?case by (auto elim!: bindE_InrE)
next
  case (3 v standalone s)
  then show ?case by auto
next
  case (4 left op right standalone s)
  from "4.prems" show ?case
    by (auto elim!: bindE_InrE split: option.splits) ((blast dest: "4.IH")+)?
next
  case (5 left op right s)
  from "5.prems" show ?case
    by (auto elim!: bindE_InrE split: option.splits) ((blast dest: "5.IH")+)?
next
  case (6 name val s)
  from "6.prems" show ?case
    by (auto elim!: bindE_InrE) ((blast dest: "6.IH")+)?
next
  case (7 condition if_truthy if_falsy s)
  from "7.prems" show ?case
    by (auto elim!: bindE_InrE split: if_splits) ((blast dest: "7.IH")+)?
next
  case (8 condition block elseif_statements else_block s)
  from "8.prems" show ?case
    by (auto elim!: bindE_InrE split: if_splits) ((blast dest: "8.IH")+)?
next
  case (9 times' block s)
  from "9.prems" show ?case
    by (auto elim!: bindE_InrE) ((blast dest: "9.IH")+)?
next
  case (10 s)
  then show ?case by simp
next
  case (11 n ns s)
  from "11.prems" show ?case
    by (auto elim!: bindE_InrE) ((blast dest: "11.IH")+)?
next
  case (12 s)
  then show ?case by simp
next
  case (13 n ns s)
  from "13.prems" show ?case
    by (auto elim!: bindE_InrE split: if_splits) ((blast dest: "13.IH")+)?
next
  case (14 block s)
  then show ?case by simp
next
  case (15 k block s)
  from "15.prems" show ?case
    by (auto elim!: bindE_InrE) ((blast dest: "15.IH")+)?
qed


lemma empty_unbound_rand_ids [simp]: "empty_unbound (s\<lparr>rand_ids := cs\<rparr>) = empty_unbound s"
  by (simp add: empty_unbound_def symbols_get_def)

lemma new_id_empty_unbound: "new_id s = Inr (c, s1) \<Longrightarrow> empty_unbound s1 = empty_unbound s"
  by (auto simp: new_id_def elim!: bindE_InrE)


lemma compile_block_keeps:
  assumes "\<And>x i s out s'. x \<in> set ns \<Longrightarrow> compile fr x i s = Inr (out, s') \<Longrightarrow>
             empty_unbound s \<Longrightarrow> empty_unbound s'"
  shows "compile_block fr ns i acc s = Inr (out, s') \<Longrightarrow> empty_unbound s \<Longrightarrow> empty_unbound s'"
  using assms
proof (induction ns arbitrary: acc s)
  case Nil
  then show ?case by simp
next
  case (Cons n ns)
  from Cons.prems(1) obtain c s1 where c: "compile fr n i s = Inr (c, s1)"
    and r: "compile_block fr ns i (acc @ nl @ c) s1 = Inr (out, s')"
    by (auto elim!: bindE_InrE)
  from Cons.prems(3) [OF _ c Cons.prems(2)] have h: "empty_unbound s1" by simp
  show ?case
    by (rule Cons.IH [OF r h]) (rule Cons.prems(3), auto)
qed

lemma compile_statements_keeps:
  assumes "\<And>x i s out s'. x \<in> set ns \<Longrightarrow> compile fr x i s = Inr (out, s') \<Longrightarrow>
             empty_unbound s \<Longrightarrow> empty_unbound s'"
  shows "compile_statements fr ns i acc s = Inr (out, s') \<Longrightarrow> empty_unbound s \<Longrightarrow> empty_unbound s'"
  using assms
proof (induction ns arbitrary: acc s)
  case Nil
  then show ?case by simp
next
  case (Cons n ns)
  from Cons.prems(1) obtain c s1 where c: "compile fr n i s = Inr (c, s1)"
    and r: "compile_statements fr ns i (acc @ c @ nl) s1 = Inr (out, s')"
    by (auto elim!: bindE_InrE)
  from Cons.prems(3) [OF _ c Cons.prems(2)] have h: "empty_unbound s1" by simp
  show ?case
    by (rule Cons.IH [OF r h]) (rule Cons.prems(3), auto)
qed

lemma compile_elifs_keeps:
  assumes "\<And>x i s out s'. x \<in> set ns \<Longrightarrow> compile fr x i s = Inr (out, s') \<Longrightarrow>
             empty_unbound s \<Longrightarrow> empty_unbound s'"
  shows "compile_elifs fr ns i acc s = Inr (out, s') \<Longrightarrow> empty_unbound s \<Longrightarrow> empty_unbound s'"
  using assms
proof (induction ns arbitrary: acc s)
  case Nil
  then show ?case by simp
next
  case (Cons n ns)
  from Cons.prems(1) obtain c s1 where c: "compile fr n i s = Inr (c, s1)"
    and r: "compile_elifs fr ns i (acc @ nl @ spaces i @ ''else '' @ c) s1 = Inr (out, s')"
    by (auto elim!: bindE_InrE)
  from Cons.prems(3) [OF _ c Cons.prems(2)] have h: "empty_unbound s1" by simp
  show ?case
    by (rule Cons.IH [OF r h]) (rule Cons.prems(3), auto)
qed

lemma compile_keeps_empty_unbound:
  "compile fr n i s = Inr (out, s') \<Longrightarrow> assigns_nonempty n \<Longrightarrow> empty_unbound s \<Longrightarrow> empty_unbound s'"
proof (induction n arbitrary: i s out s')
  case (Module stats)
  from Module.prems(2) have ok: "\<And>x. x \<in> set stats \<Longrightarrow> assigns_nonempty x"
    by (simp add: list_all_iff)
  from Module.prems(1) obtain acc r
    where r: "compile_statements fr stats (i + 4) acc s = Inr (r, s')"
    by (auto simp: Let_def elim!: bindE_InrE)
  show ?case
  proof (rule compile_statements_keeps [OF _ r Module.prems(3)])
    fix x i s out s'
    assume "x \<in> set stats" "compile fr x i s = Inr (out, s')" "empty_unbound s"
    with Module.IH ok show "empty_unbound s'" by blast
  qed
next
  case (Reference name standalone)
  then show ?case by (auto elim!: bindE_InrE split: if_splits)
next
  case (Literal v standalone)
  then show ?case by (auto split: if_splits)
next
  case (ArithmeticOp left op right standalone)
  from ArithmeticOp.prems(1) obtain l s1 r
    where l: "compile fr left i s = Inr (l, s1)" and r: "compile fr right i s1 = Inr (r, s')"
    by (auto simp: Let_def elim!: bindE_InrE split: if_splits)
  from ArithmeticOp.prems(2) have al: "assigns_nonempty left" and ar: "assigns_nonempty right"
    by simp_all
  from ArithmeticOp.IH(1) [OF l al ArithmeticOp.prems(3)] have "empty_unbound s1" .
  from ArithmeticOp.IH(2) [OF r ar this] show ?case .
next
  case (CompOp left op right)
  from CompOp.prems(1) obtain l s1 r
    where l: "compile fr left i s = Inr (l, s1)" and r: "compile fr right i s1 = Inr (r, s')"
    by (auto elim!: bindE_InrE)
  from CompOp.prems(2) have al: "assigns_nonempty left" and ar: "assigns_nonempty right"
    by simp_all
  from CompOp.IH(1) [OF l al CompOp.prems(3)] have "empty_unbound s1" .
  from CompOp.IH(2) [OF r ar this] show ?case .
next
  case (Assignment name val)
  from Assignment.prems(2) have nm: "name \<noteq> []" and av: "assigns_nonempty val"
    by simp_all
  from Assignment.prems(1) obtain ty s1 c
    where a: "(if symbols_get s name = NoneV
               then bindE (eval val s) (\<lambda>(v, s1). Inr (''int '', add name v s1))
               else Inr ([], s)) = Inr (ty, s1)"
      and c: "compile fr val i s1 = Inr (c, s')"
    by (auto elim!: bindE_InrE)
  have "empty_unbound s1"
  proof (cases "symbols_get s name = NoneV")
    case True
    with a obtain v s0 where e: "eval val s = Inr (v, s0)" and s1: "s1 = add name v s0"
      by (auto elim!: bindE_InrE)
    from eval_keeps_empty_unbound(1) [OF e av Assignment.prems(3)] nm s1 show ?thesis
      by simp
  next
    case False
    with a Assignment.prems(3) show ?thesis by simp
  qed
  from Assignment.IH [OF c av this] show ?case .
next
  case (Ternary condition if_truthy if_falsy)
  from Ternary.prems(1) obtain c s1 t s2 f
    where c: "compile fr condition i s = Inr (c, s1)"
      and t: "compile fr if_truthy i s1 = Inr (t, s2)"
      and f: "compile fr if_falsy i s2 = Inr (f, s')"
    by (auto elim!: bindE_InrE)
  from Ternary.prems(2) have a: "assigns_nonempty condition" "assigns_nonempty if_truthy"
      "assigns_nonempty if_falsy"
    by simp_all
  from Ternary.IH(1) [OF c a(1) Ternary.prems(3)] have "empty_unbound s1" .
  from Ternary.IH(2) [OF t a(2) this] have "empty_unbound s2" .
  from Ternary.IH(3) [OF f a(3) this] show ?case .
next
  case (IfStatement condition block elseif_statements else_block)
  from IfStatement.prems(2) have ac: "assigns_nonempty condition"
    and ok: "\<And>x. x \<in> set block \<Longrightarrow> assigns_nonempty x"
      "\<And>x. x \<in> set elseif_statements \<Longrightarrow> assigns_nonempty x"
      "\<And>x. x \<in> set else_block \<Longrightarrow> assigns_nonempty x"
    by (simp_all add: list_all_iff)
  have B: "empty_unbound s'" if "compile_block fr block i acc s = Inr (out, s')" "empty_unbound s"
    for i acc s out s'
  proof (rule compile_block_keeps [OF _ that])
    fix x i s out s'
    assume "x \<in> set block" "compile fr x i s = Inr (out, s')" "empty_unbound s"
    with IfStatement.IH(2) ok(1) show "empty_unbound s'" by blast
  qed
  have E: "empty_unbound s'"
    if "compile_elifs fr elseif_statements i acc s = Inr (out, s')" "empty_unbound s"
    for i acc s out s'
  proof (rule compile_elifs_keeps [OF _ that])
    fix x i s out s'
    assume "x \<in> set elseif_statements" "compile fr x i s = Inr (out, s')" "empty_unbound s"
    with IfStatement.IH(3) ok(2) show "empty_unbound s'" by blast
  qed
  have L: "empty_unbound s'"
    if "compile_block fr else_block i acc s = Inr (out, s')" "empty_unbound s"
    for i acc s out s'
  proof (rule compile_block_keeps [OF _ that])
    fix x i s out s'
    assume "x \<in> set else_block" "compile fr x i s = Inr (out, s')" "empty_unbound s"
    with IfStatement.IH(4) ok(3) show "empty_unbound s'" by blast
  qed
  from IfStatement.prems(1) obtain c s1 a2 c2 s2 a3 c3 s3
    where 1: "compile fr condition i s = Inr (c, s1)"
      and 2: "compile_block fr block (i + 4) a2 s1 = Inr (c2, s2)"
      and 3: "compile_elifs fr elseif_statements i a3 s2 = Inr (c3, s3)"
      and 4: "(if else_block \<noteq> []
                then bindE (compile_block fr else_block (i + 4) (c3 @ nl @ spaces i @ ''else {'') s3)
                       (\<lambda>(code, s4). Inr (code @ nl @ spaces i @ ''}'', s4))
                else Inr (c3, s3)) = Inr (out, s')"
    by (auto elim!: bindE_InrE)
  from IfStatement.IH(1) [OF 1 ac IfStatement.prems(3)] have "empty_unbound s1" .
  from B [OF 2 this] have "empty_unbound s2" .
  from E [OF 3 this] have s3: "empty_unbound s3" .
  show ?case
  proof (cases "else_block \<noteq> []")
    case True
    with 4 obtain c4 where "compile_block fr else_block (i + 4) (c3 @ nl @ spaces i @ ''else {'') s3
        = Inr (c4, s')"
      by (auto elim!: bindE_InrE)
    from L [OF this s3] show ?thesis .
  next
    case False
    with 4 s3 show ?thesis by simp
  qed
next
  case (Repeat times' block)
  from Repeat.prems(2) have at: "assigns_nonempty times'"
    and ok: "\<And>x. x \<in> set block \<Longrightarrow> assigns_nonempty x"
    by (simp_all add: list_all_iff)
  from Repeat.prems(1) obtain c s1 n s2 acc r
    where 1: "new_id s = Inr (c, s1)" and 2: "eval times' s1 = Inr (n, s2)"
      and 3: "compile_block fr block (i + 4) acc s2 = Inr (r, s')"
    by (auto elim!: bindE_InrE)
  from new_id_empty_unbound [OF 1] Repeat.prems(3) have "empty_unbound s1" by simp
  from eval_keeps_empty_unbound(1) [OF 2 at this] have s2: "empty_unbound s2" .
  show ?case
  proof (rule compile_block_keeps [OF _ 3 s2])
    fix x i s out s'
    assume "x \<in> set block" "compile fr x i s = Inr (out, s')" "empty_unbound s"
    with Repeat.IH(2) ok show "empty_unbound s'" by blast
  qed
qed

section \<open>The parser binds only names of the text\<close>

lemma eat_named: "eat tys ts = Inr rest \<Longrightarrow> list_all named ts \<Longrightarrow> list_all named rest"
  by (auto simp: eat_def split: list.splits if_splits)

lemma get_token_named: "get_token ts = Some t \<Longrightarrow> list_all named ts \<Longrightarrow> named t"
  by (auto simp: get_token_def split: list.splits)

lemma token_node_ok: "token_node t k = Inr node \<Longrightarrow> assigns_nonempty node"
  by (auto simp: token_node_def split: option.splits TokenType.splits tok_value.splits)

lemma expr_ok:
  "(\<forall>ts r. factor n ts = Inr r \<longrightarrow> list_all named ts \<longrightarrow> node_ok r) \<and>
   (\<forall>ts r. mult n ts = Inr r \<longrightarrow> list_all named ts \<longrightarrow> node_ok r) \<and>
   (\<forall>node ts r. mult_loop n node ts = Inr r \<longrightarrow> assigns_nonempty node \<longrightarrow> list_all named ts \<longrightarrow> node_ok r) \<and>
   (\<forall>ts r. expr n ts = Inr r \<longrightarrow> list_all named ts \<longrightarrow> node_ok r) \<and>
   (\<forall>node ts r. expr_loop n node ts = Inr r \<longrightarrow> assigns_nonempty node \<longrightarrow> list_all named ts \<longrightarrow> node_ok r)"
proof (induction n)
  case 0
  show ?case by simp
next
  case (Suc n)
  then have f: "\<And>ts r. factor n ts = Inr r \<Longrightarrow> list_all named ts \<Longrightarrow> node_ok r"
    and m: "\<And>ts r. mult n ts = Inr r \<Longrightarrow> list_all named ts \<Longrightarrow> node_ok r"
    and ml: "\<And>node ts r. mult_loop n node ts = Inr r \<Longrightarrow> assigns_nonempty node \<Longrightarrow> list_all named ts \<Longrightarrow> node_ok r"
    and e: "\<And>ts r. expr n ts = Inr r \<Longrightarrow> list_all named ts \<Longrightarrow> node_ok r"
    and el: "\<And>node ts r. expr_loop n node ts = Inr r \<Longrightarrow> assigns_nonempty node \<Longrightarrow> list_all named ts \<Longrightarrow> node_ok r"
    by blast+
  have 1: "node_ok r" if "factor (Suc n) ts = Inr r" "list_all named ts" for ts r
    using that unfolding factor.simps(2) [of n]
    by (auto elim!: bindE_InrE split: option.splits if_splits
        dest!: e eat_named token_node_ok simp: node_ok_def)
  have 2: "node_ok r" if "mult (Suc n) ts = Inr r" "list_all named ts" for ts r
    using that unfolding mult.simps(2) [of n]
    by (auto elim!: bindE_InrE dest!: f simp: node_ok_def dest: ml)
  have 3: "node_ok r" if "mult_loop (Suc n) node ts = Inr r" "assigns_nonempty node" "list_all named ts"
    for node ts r
    using that unfolding mult_loop.simps(2) [of n]
    by (auto elim!: bindE_InrE split: option.splits if_splits
        dest!: f eat_named simp: node_ok_def dest: ml)
  have 4: "node_ok r" if "expr (Suc n) ts = Inr r" "list_all named ts" for ts r
    using that unfolding expr.simps(2) [of n]
    by (auto elim!: bindE_InrE dest!: m simp: node_ok_def dest: el)
  have 5: "node_ok r" if "expr_loop (Suc n) node ts = Inr r" "assigns_nonempty node" "list_all named ts"
    for node ts r
    using that unfolding expr_loop.simps(2) [of n]
    by (auto elim!: bindE_InrE split: option.splits if_splits
        dest!: m eat_named simp: node_ok_def dest: el)
  from 1 2 3 4 5 show ?case by blast
qed


lemma expr_node_ok: "expr n ts = Inr r \<Longrightarrow> list_all named ts \<Longrightarrow> node_ok r"
  using expr_ok [of n] by blast

lemma comparison_loop_ok:
  "comparison_loop n node ts = Inr r \<Longrightarrow> assigns_nonempty node \<Longrightarrow> list_all named ts \<Longrightarrow> node_ok r"
proof (induction n arbitrary: node ts)
  case 0
  then show ?case by simp
next
  case (Suc n)
  from Suc.prems show ?case
    unfolding comparison_loop.simps(2) [of n]
    by (auto elim!: bindE_InrE split: option.splits if_splits
        dest!: expr_node_ok eat_named simp: node_ok_def dest: Suc.IH)
qed

lemma comparison_expr_ok:
  "comparison_expr n ts = Inr r \<Longrightarrow> list_all named ts \<Longrightarrow> node_ok r"
  unfolding comparison_expr_def
  by (auto elim!: bindE_InrE dest!: expr_node_ok dest: comparison_loop_ok simp: node_ok_def)

lemma ternary_ok:
  "ternary n (Some c) ts = Inr r \<Longrightarrow> assigns_nonempty c \<Longrightarrow> list_all named ts \<Longrightarrow> node_ok r"
  unfolding ternary_def
  by (auto elim!: bindE_InrE dest!: expr_node_ok eat_named simp: node_ok_def)

lemma str_value_named: "str_value t = Inr name \<Longrightarrow> named t \<Longrightarrow> name \<noteq> []"
  by (auto simp: str_value_def named_def split: tok_value.splits)

lemma assignment_ok:
  assumes "assignment n ts = Inr r" "list_all named ts"
  shows "node_ok r"
proof -
  from assms(1) obtain ts1 ts2 ts3 v ts4 v' ts5 tok name
    where 1: "eat [LET] ts = Inr ts1" and 2: "eat [ID] ts1 = Inr ts2"
      and 3: "eat [EQUAL] ts2 = Inr ts3" and 4: "comparison_expr n ts3 = Inr (v, ts4)"
      and 5: "(case get_token ts4 of None \<Rightarrow> Inr (v, ts4)
                | Some tern_token \<Rightarrow>
                    if type tern_token = Some TERNARY then ternary n (Some v) ts4
                    else Inr (v, ts4)) = Inr (v', ts5)"
      and 6: "get_token ts1 = Some tok" and 7: "str_value tok = Inr name"
      and r: "r = (Assignment name v', ts5)"
    unfolding assignment_def
    by (auto elim!: bindE_InrE split: if_splits option.splits)
  from eat_named [OF 1 assms(2)] have n1: "list_all named ts1" .
  from eat_named [OF 3 eat_named [OF 2 n1]] have "list_all named ts3" .
  from comparison_expr_ok [OF 4 this] have v: "assigns_nonempty v" "list_all named ts4"
    by (simp_all add: node_ok_def)
  from 5 v ternary_ok [of n v ts4 "(v', ts5)"] have "assigns_nonempty v'" "list_all named ts5"
    by (auto simp: node_ok_def split: option.splits if_splits)
  moreover from str_value_named [OF 7 get_token_named [OF 6 n1]] have "name \<noteq> []" .
  ultimately show ?thesis using r by (simp add: node_ok_def)
qed

lemma statements_ok:
  "(\<forall>c stats ts r. statements_loop n c stats ts = Inr r \<longrightarrow> list_all assigns_nonempty stats \<longrightarrow>
      list_all named ts \<longrightarrow> nodes_ok r) \<and>
   (\<forall>ts r. repeat n ts = Inr r \<longrightarrow> list_all named ts \<longrightarrow> node_ok r) \<and>
   (\<forall>ts r. if_statement n ts = Inr r \<longrightarrow> list_all named ts \<longrightarrow> node_ok r) \<and>
   (\<forall>elifs ts r. elif_loop n elifs ts = Inr r \<longrightarrow> list_all assigns_nonempty elifs \<longrightarrow>
      list_all named ts \<longrightarrow> nodes_ok r)"
proof (induction n)
  case 0
  show ?case by simp
next
  case (Suc n)
  then have sl: "\<And>c stats ts r. statements_loop n c stats ts = Inr r \<Longrightarrow>
        list_all assigns_nonempty stats \<Longrightarrow> list_all named ts \<Longrightarrow> nodes_ok r"
    and rp: "\<And>ts r. repeat n ts = Inr r \<Longrightarrow> list_all named ts \<Longrightarrow> node_ok r"
    and ifs: "\<And>ts r. if_statement n ts = Inr r \<Longrightarrow> list_all named ts \<Longrightarrow> node_ok r"
    and el: "\<And>elifs ts r. elif_loop n elifs ts = Inr r \<Longrightarrow> list_all assigns_nonempty elifs \<Longrightarrow>
        list_all named ts \<Longrightarrow> nodes_ok r"
    by blast+
  have sa: "assigns_nonempty (set_standalone x) = assigns_nonempty x" for x
    by (cases x) simp_all
  have 1: "nodes_ok r"
    if "statements_loop (Suc n) c stats ts = Inr r" "list_all assigns_nonempty stats" "list_all named ts"
    for c stats ts r
    using that unfolding statements_loop.simps(2) [of n]
    by (auto elim!: bindE_InrE split: option.splits if_splits
        dest!: expr_node_ok assignment_ok rp ifs eat_named simp: node_ok_def nodes_ok_def sa
        dest: sl [unfolded nodes_ok_def])
  have 2: "node_ok r" if "repeat (Suc n) ts = Inr r" "list_all named ts" for ts r
  proof -
    from that(1) obtain ts1 t ts2 ts3 b ts4 ts5
      where a: "eat [REPEAT] ts = Inr ts1" and b: "expr n ts1 = Inr (t, ts2)"
        and c: "eat [L_BRACE] ts2 = Inr ts3"
        and d: "statements_loop n NOT_R_BRACE_CONDITION [] ts3 = Inr (b, ts4)"
        and e: "eat [R_BRACE] ts4 = Inr ts5" and r: "r = (Repeat t b, ts5)"
      unfolding repeat.simps(2) [of n] by (auto elim!: bindE_InrE)
    from expr_node_ok [OF b eat_named [OF a that(2)]]
    have t: "assigns_nonempty t" "list_all named ts2"
      by (simp_all add: node_ok_def)
    from sl [OF d _ eat_named [OF c t(2)]] have "list_all assigns_nonempty b" "list_all named ts4"
      by (simp_all add: nodes_ok_def)
    with eat_named [OF e] t(1) r show ?thesis
      by (simp add: node_ok_def)
  qed
  have 4: "nodes_ok r"
    if "elif_loop (Suc n) elifs ts = Inr r" "list_all assigns_nonempty elifs" "list_all named ts"
    for elifs ts r
  proof (cases "\<exists>token. get_token ts = Some token \<and> type token = Some ELIF")
    case True
    with that(1) obtain node ts1 where a: "if_statement n ts = Inr (node, ts1)"
      and b: "elif_loop n (elifs @ [node]) ts1 = Inr r"
      unfolding elif_loop.simps(2) [of n] by (auto elim!: bindE_InrE)
    from ifs [OF a that(3)] have "assigns_nonempty node" "list_all named ts1"
      by (simp_all add: node_ok_def)
    with el [OF b] that(2) show ?thesis by simp
  next
    case False
    with that show ?thesis
      unfolding elif_loop.simps(2) [of n]
      by (auto simp: nodes_ok_def split: option.splits if_splits)
  qed
  have 3: "node_ok r" if "if_statement (Suc n) ts = Inr r" "list_all named ts" for ts r
  proof -
    from that(1) obtain ts1 c ts2 ts3 b ts4 ts5 es ts6 eb ts11
      where a: "eat [IF, ELIF] ts = Inr ts1" and b: "comparison_expr n ts1 = Inr (c, ts2)"
        and c: "eat [L_BRACE] ts2 = Inr ts3"
        and d: "statements_loop n NOT_R_BRACE_CONDITION [] ts3 = Inr (b, ts4)"
        and e: "eat [R_BRACE] ts4 = Inr ts5"
        and f: "elif_loop n [] ts5 = Inr (es, ts6)"
        and g: "(case get_token ts6 of
                   None \<Rightarrow> Inr ([], ts6)
                 | Some token \<Rightarrow>
                     if type token = Some ELSE then
                       bindE (eat [ELSE] ts6) (\<lambda>ts7.
                       bindE (eat [L_BRACE] ts7) (\<lambda>ts8.
                       bindE (statements_loop n NOT_R_BRACE_CONDITION [] ts8) (\<lambda>(else_block, ts9).
                       bindE (eat [R_BRACE] ts9) (\<lambda>ts10.
                         Inr (else_block, ts10)))))
                     else Inr ([], ts6)) = Inr (eb, ts11)"
        and r: "r = (IfStatement c b es eb, ts11)"
      unfolding if_statement.simps(2) [of n] by (auto elim!: bindE_InrE)
    from comparison_expr_ok [OF b eat_named [OF a that(2)]]
    have c': "assigns_nonempty c" "list_all named ts2"
      by (simp_all add: node_ok_def)
    from sl [OF d _ eat_named [OF c c'(2)]] have b': "list_all assigns_nonempty b" "list_all named ts4"
      by (simp_all add: nodes_ok_def)
    from el [OF f _ eat_named [OF e b'(2)]] have es: "list_all assigns_nonempty es" "list_all named ts6"
      by (simp_all add: nodes_ok_def)
    have "list_all assigns_nonempty eb \<and> list_all named ts11"
    proof (cases "\<exists>token. get_token ts6 = Some token \<and> type token = Some ELSE")
      case True
      with g obtain ts7 ts8 ts9 where h: "eat [ELSE] ts6 = Inr ts7" "eat [L_BRACE] ts7 = Inr ts8"
          "statements_loop n NOT_R_BRACE_CONDITION [] ts8 = Inr (eb, ts9)" "eat [R_BRACE] ts9 = Inr ts11"
        by (auto elim!: bindE_InrE)
      from sl [OF h(3) _ eat_named [OF h(2) eat_named [OF h(1) es(2)]]]
      have "list_all assigns_nonempty eb" "list_all named ts9"
        by (simp_all add: nodes_ok_def)
      with eat_named [OF h(4)] show ?thesis by simp
    next
      case False
      with g es(2) show ?thesis
        by (auto split: option.splits if_splits)
    qed
    with c' b' es r show ?thesis by (simp add: node_ok_def)
  qed
  from 1 2 3 4 show ?case by blast
qed

lemma parse_ok: "parse n ts = Inr prog \<Longrightarrow> list_all named ts \<Longrightarrow> assigns_nonempty prog"
  using statements_ok [of n]
  by (auto simp: parse_def statements_def nodes_ok_def elim!: bindE_InrE)


lemma type_value_nonempty: "type_value t \<noteq> []"
  by (cases t) simp_all

lemma get_chars_nonempty: "char L = Some c \<Longrightarrow> cond c \<Longrightarrow> fst (get_chars cond L) \<noteq> []"
  by (simp add: get_chars.simps [of cond L] split: prod.splits)

lemma tokenize_loop_named:
  "tokenize_loop L acc = Inr ts \<Longrightarrow> list_all named acc \<Longrightarrow> list_all named ts"
proof (induction L acc rule: tokenize_loop.induct)
  case (1 L tokens)
  show ?case
  proof (cases "char L")
    case None
    with "1.prems" show ?thesis
      by (simp add: tokenize_loop.simps [of L tokens])
  next
    case (Some c)
    note c = Some
    show ?thesis
    proof (cases "isdigit c")
      case True
      obtain integer L1 where g: "get_chars isdigit L = (integer, L1)"
        by (cases "get_chars isdigit L")
      with "1.prems"(1) c True obtain i where i: "py_int integer = Inr i"
        and r: "tokenize_loop L1 (tokens @ [\<lparr>type = Some INT_T, tvalue = IntVal i,
                  line = lineno L, col = column L\<rparr>]) = Inr ts"
        by (cases "py_int integer") (simp_all add: tokenize_loop.simps [of L tokens])
      from "1.IH"(1) [OF c True g [symmetric] i r] "1.prems"(2) show ?thesis
        by (simp add: named_def)
    next
      case False
      note nd = False
      show ?thesis
      proof (cases "c \<in> set ID_VALID_START_CHARS")
        case True
        obtain ident L1 where g: "get_chars (\<lambda>c. c \<in> set ID_VALID_CHARS) L = (ident, L1)"
          by (cases "get_chars (\<lambda>c. c \<in> set ID_VALID_CHARS) L")
        from get_chars_nonempty [OF c, of "\<lambda>c. c \<in> set ID_VALID_CHARS"] start_char_valid [OF True] g
        have ne: "ident \<noteq> []" by simp
        from g "1.prems"(1) c nd True
        have r: "tokenize_loop L1 (tokens @ [\<lparr>type = (if ident \<in> set KEYWORDS
                    then TokenType_get ident else Some ID),
                  tvalue = StrVal ident, line = lineno L, col = column L\<rparr>]) = Inr ts"
          by (simp add: tokenize_loop.simps [of L tokens])
        from "1.IH"(2) [OF c nd True g [symmetric] r] "1.prems"(2) ne show ?thesis
          by (simp add: named_def)
      next
        case False
        note ns = False
        show ?thesis
        proof (cases "TokenType_get [c]")
          case (Some t_type)
          with "1.prems"(1) c nd ns
          have r: "tokenize_loop (advance L) (tokens @ [\<lparr>type = Some t_type,
                    tvalue = StrVal (type_value t_type), line = lineno L, col = column L\<rparr>]) = Inr ts"
            by (simp add: tokenize_loop.simps [of L tokens])
          from "1.IH"(5) [OF c nd ns Some r] "1.prems"(2) show ?thesis
            by (simp add: named_def type_value_nonempty)
        next
          case None
          with "1.prems"(1) c nd ns
          have r: "(isspace c \<and> tokenize_loop (skip_whitespace L) tokens = Inr ts) \<or>
                   (\<not> isspace c \<and> c = CHR ''#'' \<and> tokenize_loop (skip_comment L) tokens = Inr ts)"
            by (simp add: tokenize_loop.simps [of L tokens] split: if_splits)
          with "1.IH"(3) [OF c nd ns None] "1.IH"(4) [OF c nd ns None] "1.prems"(2)
          show ?thesis by blast
        qed
      qed
    qed
  qed
qed

lemma tokenize_named: "tokenize source = Inr ts \<Longrightarrow> list_all named ts"
  by (auto simp: tokenize_def split: if_splits dest: tokenize_loop_named)

section \<open>Unary minus before an identifier\<close>

lemma reachable_empty_unbound: "reachable s \<Longrightarrow> empty_unbound s"
proof (induction rule: reachable.induct)
  case (fresh ids)
  show ?case by (simp add: empty_unbound_def symbols_get_def new_env_def)
next
  case (evaluated s node v s')
  from eval_keeps_empty_unbound(1) [OF evaluated(3) evaluated(2) evaluated(4)] show ?case .
next
  case (rendered s node fr indent out s')
  from compile_keeps_empty_unbound [OF rendered(3) rendered(2) rendered(4)] show ?case .
qed

text \<open>
  Claim C10. On a \<open>-\<close> token followed by an identifier token, \<open>factor\<close> multiplies the
  name by \<open>-1\<close> and returns a \<open>Reference\<close> whose name is the empty string. Every tree the
  parser returns for the tokens of a text binds only non-empty names, so in every
  environment a program can reach the empty string has no value, and there evaluating
  and rendering the node both fail with the unresolved-identifier error.
\<close>

theorem unary_minus_identifier:
  "(type m = Some MINUS \<and> type i = Some ID \<and> tvalue i = StrVal name \<longrightarrow>
      factor (Suc n) (m # i # rest) = Inr (Reference [] False, rest)) \<and>
   (tokenize source = Inr tokens \<and> parse k tokens = Inr prog \<longrightarrow> assigns_nonempty prog) \<and>
   (reachable s \<longrightarrow>
      eval (Reference [] sa) s = Inl (UnresolvedIdentifier []) \<and>
      compile fr (Reference [] sa) indent s = Inl (UnresolvedIdentifier []))"
proof (intro conjI impI)
  assume "type m = Some MINUS \<and> type i = Some ID \<and> tvalue i = StrVal name"
  then show "factor (Suc n) (m # i # rest) = Inr (Reference [] False, rest)"
    by (simp add: factor.simps get_token_def eat_def token_node_def str_mul_def)
next
  assume "tokenize source = Inr tokens \<and> parse k tokens = Inr prog"
  then show "assigns_nonempty prog"
    using parse_ok tokenize_named by blast
next
  assume "reachable s"
  then have "symbols_get s [] = NoneV"
    using reachable_empty_unbound by (simp add: empty_unbound_def)
  then show "eval (Reference [] sa) s = Inl (UnresolvedIdentifier [])"
    and "compile fr (Reference [] sa) indent s = Inl (UnresolvedIdentifier [])"
    by (simp_all add: get_or_raise_def)
qed

text \<open>
  The text \<open>let x = 1; let y = -x;\<close>: \<open>-x\<close> parses to the reference with the empty name,
  no assignment of the program binds the empty name, and the program fails on it, in the
  environment \<open>let x = 1;\<close> leaves.
\<close>

theorem unary_minus_identifier_witness:
  "bindE (tokenize ''-x;'') (factor 1)
     = Inr (Reference [] False, [\<lparr>type = Some SEMICOLON, tvalue = StrVal '';'', line = 1, col = 3\<rparr>]) \<and>
   bindE (tokenize ''let x = 1; let y = -x;'') (parse 20)
     = Inr (Module [Assignment ''x'' (Literal 1 False), Assignment ''y'' (Reference [] False)]) \<and>
   assigns_nonempty (Module [Assignment ''x'' (Literal 1 False), Assignment ''y'' (Reference [] False)]) \<and>
   reachable (add ''x'' (IntV 1) (new_env [])) \<and>
   eval (Reference [] False) (add ''x'' (IntV 1) (new_env [])) = Inl (UnresolvedIdentifier []) \<and>
   compile (\<lambda>f. []) (Reference [] False) 0 (add ''x'' (IntV 1) (new_env []))
     = Inl (UnresolvedIdentifier []) \<and>
   interpreter 20 ''let x = 1; let y = -x;'' = Inl (UnresolvedIdentifier [])"
proof -
  define minus where "minus = \<lparr>type = Some MINUS, tvalue = StrVal ''-'', line = 1, col = 1\<rparr>"
  define x where "x = \<lparr>type = Some ID, tvalue = StrVal ''x'', line = 1, col = 2\<rparr>"
  define semi where "semi = \<lparr>type = Some SEMICOLON, tvalue = StrVal '';'', line = 1, col = 3\<rparr>"
  define prog where
    "prog = Module [Assignment ''x'' (Literal 1 False), Assignment ''y'' (Reference [] False)]"
  define s where "s = add ''x'' (IntV 1) (new_env [])"
  have t1: "tokenize ''-x;'' = Inr [minus, x, semi]"
    unfolding minus_def x_def semi_def by code_simp
  obtain tokens where t2: "tokenize ''let x = 1; let y = -x;'' = Inr tokens"
    and p: "parse 20 tokens = Inr prog"
  proof -
    have "bindE (tokenize ''let x = 1; let y = -x;'') (parse 20) = Inr prog"
      unfolding prog_def by code_simp
    then show ?thesis
      using that by (auto elim!: bindE_InrE)
  qed
  have "eval (Assignment ''x'' (Literal 1 False)) (new_env []) = Inr (NoneV, s)"
    by (simp add: s_def log_def)
  from reachable.evaluated [OF reachable.fresh _ this] have r: "reachable s"
    by simp
  note inst = unary_minus_identifier [where m = minus and i = x and name = "''x''" and n = 0
      and rest = "[semi]" and source = "''let x = 1; let y = -x;''" and tokens = tokens and k = 20
      and prog = prog and s = s and sa = False and fr = "\<lambda>f. []" and indent = 0]
  from inst t2 p r have
    "factor 1 [minus, x, semi] = Inr (Reference [] False, [semi])"
    "assigns_nonempty prog"
    "eval (Reference [] False) s = Inl (UnresolvedIdentifier [])"
    "compile (\<lambda>f. []) (Reference [] False) 0 s = Inl (UnresolvedIdentifier [])"
    by (simp_all add: minus_def x_def)
  moreover have "interpreter 20 ''let x = 1; let y = -x;'' = Inl (UnresolvedIdentifier [])"
  proof -
    have "map_sum id printed (interpreter 20 ''let x = 1; let y = -x;'')
        = Inl (UnresolvedIdentifier [])"
      by code_simp
    then show ?thesis
      by (cases "interpreter 20 ''let x = 1; let y = -x;''") simp_all
  qed
  ultimately show ?thesis
    using t1 t2 p r by (simp add: semi_def prog_def s_def)
qed

section \<open>Line and column of a token\<close>

text \<open>
  One step of the lexer: on a line feed \<open>advance\<close> adds one to the line and sets the column
  to 1, and then adds one to the position and to the column as on every other character.
\<close>

lemma advance_position:
  "lineno (advance L) = (if char L = Some CHR 0x0A then lineno L + 1 else lineno L) \<and>
   column (advance L) = (if char L = Some CHR 0x0A then 2 else column L + 1)"
  by (simp add: advance_def Let_def)

text \<open>
  Claim C9. The text of the two lines \<open>a\<close> and \<open>b\<close>: the token of \<open>a\<close>, the first
  character of the text, is at line 1 and column 1, and the token of \<open>b\<close>, the first
  character of the second line, is at line 2 and column 2.
\<close>

theorem tokenize_column_after_newline:
  "tokenize (''a'' @ [CHR 0x0A] @ ''b'') =
     Inr [\<lparr>type = Some ID, tvalue = StrVal ''a'', line = 1, col = 1\<rparr>,
          \<lparr>type = Some ID, tvalue = StrVal ''b'', line = 2, col = 2\<rparr>]"
  by code_simp

section \<open>Assignment of a comparison\<close>

text \<open>
  The comparison \<open>1 < 2\<close> parses as a comparison-expression, and the statement
  \<open>let x = 1 < 2;\<close> raises \<open>ValueError("Can't assign to comparison.")\<close>.
\<close>

theorem assignment_of_comparison_counterexample:
  "bindE (tokenize ''1 < 2;'') (comparison_expr 10)
     = Inr (CompOp (Literal 1 False) ''<'' (Literal 2 False),
            [\<lparr>type = Some SEMICOLON, tvalue = StrVal '';'', line = 1, col = 6\<rparr>]) \<and>
   bindE (tokenize ''let x = 1 < 2;'') (assignment 10) = Inl AssignToComparison \<and>
   bindE (tokenize ''let x = 1 < 2;'') (parse 10) = Inl AssignToComparison"
  by code_simp

text \<open>
  Claim C3, as the code has it. After \<open>let\<close>, a name and \<open>=\<close>, a comparison-expression
  that is a comparison and that no \<open>?\<close> follows makes \<open>assignment\<close> raise the
  \<open>ValueError\<close>; and whenever \<open>assignment\<close> returns, it returns an \<open>Assignment\<close> whose
  value is not a comparison.
\<close>

theorem assignment_rejects_comparison:
  "(type l = Some LET \<and> type i = Some ID \<and> type e = Some EQUAL \<and>
    comparison_expr n ts = Inr (v, rest) \<and> is_CompOp v \<and>
    (\<forall>t. get_token rest = Some t \<longrightarrow> type t \<noteq> Some TERNARY) \<longrightarrow>
      assignment n (l # i # e # ts) = Inl AssignToComparison) \<and>
   (assignment n ts' = Inr (node, rest') \<longrightarrow> (\<exists>name v'. node = Assignment name v' \<and> \<not> is_CompOp v'))"
proof (intro conjI impI)
  assume a: "type l = Some LET \<and> type i = Some ID \<and> type e = Some EQUAL \<and>
    comparison_expr n ts = Inr (v, rest) \<and> is_CompOp v \<and>
    (\<forall>t. get_token rest = Some t \<longrightarrow> type t \<noteq> Some TERNARY)"
  then show "assignment n (l # i # e # ts) = Inl AssignToComparison"
    by (cases "get_token rest") (simp_all add: assignment_def eat_def)
next
  assume "assignment n ts' = Inr (node, rest')"
  then show "\<exists>name v'. node = Assignment name v' \<and> \<not> is_CompOp v'"
    unfolding assignment_def
    by (auto elim!: bindE_InrE split: if_splits option.splits)
qed

text \<open>
  The tokens of \<open>let x = 1 < 2;\<close> raise, and \<open>let x = 1 < 2 ? 10 : 20;\<close> assigns the
  ternary.
\<close>

theorem assignment_rejects_comparison_witness:
  "comparison_expr 10
     [\<lparr>type = Some INT_T, tvalue = IntVal 1, line = 1, col = 9\<rparr>,
      \<lparr>type = Some LT, tvalue = StrVal ''<'', line = 1, col = 11\<rparr>,
      \<lparr>type = Some INT_T, tvalue = IntVal 2, line = 1, col = 13\<rparr>,
      \<lparr>type = Some SEMICOLON, tvalue = StrVal '';'', line = 1, col = 14\<rparr>]
     = Inr (CompOp (Literal 1 False) ''<'' (Literal 2 False),
            [\<lparr>type = Some SEMICOLON, tvalue = StrVal '';'', line = 1, col = 14\<rparr>]) \<and>
   assignment 10
     [\<lparr>type = Some LET, tvalue = StrVal ''let'', line = 1, col = 1\<rparr>,
      \<lparr>type = Some ID, tvalue = StrVal ''x'', line = 1, col = 5\<rparr>,
      \<lparr>type = Some EQUAL, tvalue = StrVal ''='', line = 1, col = 7\<rparr>,
      \<lparr>type = Some INT_T, tvalue = IntVal 1, line = 1, col = 9\<rparr>,
      \<lparr>type = Some LT, tvalue = StrVal ''<'', line = 1, col = 11\<rparr>,
      \<lparr>type = Some INT_T, tvalue = IntVal 2, line = 1, col = 13\<rparr>,
      \<lparr>type = Some SEMICOLON, tvalue = StrVal '';'', line = 1, col = 14\<rparr>]
     = Inl AssignToComparison \<and>
   bindE (tokenize ''let x = 1 < 2 ? 10 : 20;'') (assignment 10)
     = Inr (Assignment ''x''
              (Ternary (CompOp (Literal 1 False) ''<'' (Literal 2 False))
                 (Literal 10 False) (Literal 20 False)),
            [\<lparr>type = Some SEMICOLON, tvalue = StrVal '';'', line = 1, col = 24\<rparr>]) \<and>
   \<not> is_CompOp (Ternary (CompOp (Literal 1 False) ''<'' (Literal 2 False))
                 (Literal 10 False) (Literal 20 False))"
proof -
  define l where "l = \<lparr>type = Some LET, tvalue = StrVal ''let'', line = 1, col = 1\<rparr>"
  define i where "i = \<lparr>type = Some ID, tvalue = StrVal ''x'', line = 1, col = 5\<rparr>"
  define e where "e = \<lparr>type = Some EQUAL, tvalue = StrVal ''='', line = 1, col = 7\<rparr>"
  define ts where "ts =
     [\<lparr>type = Some INT_T, tvalue = IntVal 1, line = 1, col = 9\<rparr>,
      \<lparr>type = Some LT, tvalue = StrVal ''<'', line = 1, col = 11\<rparr>,
      \<lparr>type = Some INT_T, tvalue = IntVal 2, line = 1, col = 13\<rparr>,
      \<lparr>type = Some SEMICOLON, tvalue = StrVal '';'', line = 1, col = 14\<rparr>]"
  define semi where "semi = \<lparr>type = Some SEMICOLON, tvalue = StrVal '';'', line = 1, col = 14\<rparr>"
  define v where "v = CompOp (Literal 1 False) ''<'' (Literal 2 False)"
  define tern where "tern = Ternary v (Literal 10 False) (Literal 20 False)"
  define semi' where "semi' = \<lparr>type = Some SEMICOLON, tvalue = StrVal '';'', line = 1, col = 24\<rparr>"
  have c: "comparison_expr 10 ts = Inr (v, [semi])"
    unfolding ts_def v_def semi_def by code_simp
  obtain ts' where t: "tokenize ''let x = 1 < 2 ? 10 : 20;'' = Inr ts'"
    and a: "assignment 10 ts' = Inr (Assignment ''x'' tern, [semi'])"
  proof -
    have "bindE (tokenize ''let x = 1 < 2 ? 10 : 20;'') (assignment 10)
        = Inr (Assignment ''x'' tern, [semi'])"
      unfolding tern_def v_def semi'_def by code_simp
    then show ?thesis
      using that by (auto elim!: bindE_InrE)
  qed
  note inst = assignment_rejects_comparison [where l = l and i = i and e = e and n = 10
      and ts = ts and v = v and rest = "[semi]" and ts' = ts' and node = "Assignment ''x'' tern"
      and rest' = "[semi']"]
  from inst c a have "assignment 10 (l # i # e # ts) = Inl AssignToComparison"
    and "\<not> is_CompOp tern"
    by (simp_all add: l_def i_def e_def v_def semi_def get_token_def)
  with c t a show ?thesis
    by (simp add: l_def i_def e_def ts_def v_def semi_def tern_def semi'_def)
qed

section \<open>Chained comparisons\<close>







section \<open>Parentheses in the rendered text\<close>

text \<open>
  The text of an arithmetic node that is not standalone: the text of the left operand as
  it is, the operator, and the text of the right operand, in parentheses exactly when the
  operator is in \<open>"*/"\<close> and the right operand has an operator in \<open>"+-"\<close>.
\<close>

lemma ArithmeticOp_compile_text:
  "compile fr left indent s = Inr (l, s1) \<Longrightarrow> compile fr right indent s1 = Inr (r, s2) \<Longrightarrow>
   compile fr (ArithmeticOp left op right False) indent s =
     Inr (l @ '' '' @ op @ '' '' @
          (if str_in op ''*/'' \<and> str_in (getattr_op right) ''+-'' then ''('' @ r @ '')'' else r), s2)"
  by (simp add: Let_def)

text \<open>
  Claim C1. With \<open>a = 1\<close>, \<open>b = 2\<close> and \<open>c = 3\<close>: the statement \<open>(a + b) * c;\<close> parses to
  the product of the sum \<open>a + b\<close> and \<open>c\<close>, whose value is 9, and that product renders as
  \<open>a + b * c\<close>, without parentheses, which is the text of the tree of \<open>a + b * c;\<close>, whose
  value is 7. The product \<open>a * (b + c)\<close> renders with its parentheses, and \<open>a * b + c\<close>
  with none.
\<close>

theorem compile_left_additive_operand:
  "bindE (tokenize ''(a + b) * c;'') (parse 20) =
     Inr (Module [ArithmeticOp
            (ArithmeticOp (Reference ''a'' False) ''+'' (Reference ''b'' False) False)
            ''*'' (Reference ''c'' False) True]) \<and>
   map_sum id fst (compile (\<lambda>f. [])
       (ArithmeticOp (ArithmeticOp (Reference ''a'' False) ''+'' (Reference ''b'' False) False)
          ''*'' (Reference ''c'' False) False) 0
       (add ''c'' (IntV 3) (add ''b'' (IntV 2) (add ''a'' (IntV 1) (new_env [])))))
     = Inr ''a + b * c'' \<and>
   map_sum id fst (eval
       (ArithmeticOp (ArithmeticOp (Reference ''a'' False) ''+'' (Reference ''b'' False) False)
          ''*'' (Reference ''c'' False) False)
       (add ''c'' (IntV 3) (add ''b'' (IntV 2) (add ''a'' (IntV 1) (new_env [])))))
     = Inr (IntV 9) \<and>
   bindE (tokenize ''a + b * c;'') (parse 20) =
     Inr (Module [ArithmeticOp (Reference ''a'' False) ''+''
            (ArithmeticOp (Reference ''b'' False) ''*'' (Reference ''c'' False) False) True]) \<and>
   map_sum id fst (eval
       (ArithmeticOp (Reference ''a'' False) ''+''
          (ArithmeticOp (Reference ''b'' False) ''*'' (Reference ''c'' False) False) False)
       (add ''c'' (IntV 3) (add ''b'' (IntV 2) (add ''a'' (IntV 1) (new_env [])))))
     = Inr (IntV 7) \<and>
   map_sum id fst (compile (\<lambda>f. [])
       (ArithmeticOp (Reference ''a'' False) ''*''
          (ArithmeticOp (Reference ''b'' False) ''+'' (Reference ''c'' False) False) False) 0
       (add ''c'' (IntV 3) (add ''b'' (IntV 2) (add ''a'' (IntV 1) (new_env [])))))
     = Inr ''a * (b + c)'' \<and>
   map_sum id fst (compile (\<lambda>f. [])
       (ArithmeticOp (ArithmeticOp (Reference ''a'' False) ''*'' (Reference ''b'' False) False)
          ''+'' (Reference ''c'' False) False) 0
       (add ''c'' (IntV 3) (add ''b'' (IntV 2) (add ''a'' (IntV 1) (new_env [])))))
     = Inr ''a * b + c''"
  by code_simp

section \<open>The loop of a repeat\<close>






section \<open>Division\<close>

subsection \<open>Rounding to binary64\<close>















lemma pow2_0 [simp]: "pow2 0 = 1"
  by (simp add: pow2_def)




subsection \<open>The operator \<open>/\<close> on two integers\<close>











section \<open>The chain of a conditional\<close>

text \<open>
  \<open>if_statement\<close> reads a clause, then loops over the \<open>elif\<close> tokens, then reads the
  \<open>else\<close> part.
\<close>

lemma bindE_assoc: "bindE (bindE m f) g = bindE m (\<lambda>x. bindE (f x) g)"
  by (cases m) simp_all

lemma if_statement_unroll:
  "if_statement (Suc k) ts =
     bindE (clause k ts) (\<lambda>((c, b), ts5).
     bindE (elif_loop k [] ts5) (\<lambda>(elifs, ts6).
     bindE (else_part k ts6) (\<lambda>(els, ts11).
       Inr (IfStatement c b elifs els, ts11))))"
  unfolding if_statement.simps(2) clause_def else_part_def
  by (simp add: bindE_assoc case_prod_unfold)

text \<open>A larger recursion bound changes neither a clause nor an \<open>else\<close> part.\<close>

lemma clause_fuel: "n \<le> m \<Longrightarrow> fuel_le (clause n ts) (clause m ts)"
  unfolding clause_def
  by (intro fuel_le_intros comparison_expr_fuel statements_loop_fuel)

lemma else_part_fuel: "n \<le> m \<Longrightarrow> fuel_le (else_part n ts) (else_part m ts)"
  unfolding else_part_def
  by (intro fuel_le_intros statements_loop_fuel)

lemma clause_more_fuel: "clause n ts = Inr r \<Longrightarrow> n \<le> m \<Longrightarrow> clause m ts = Inr r"
  using fuel_le_Inr [OF clause_fuel] by blast

lemma else_part_more_fuel: "else_part n ts = Inr r \<Longrightarrow> n \<le> m \<Longrightarrow> else_part m ts = Inr r"
  using fuel_le_Inr [OF else_part_fuel] by blast

text \<open>
  The loop over the \<open>elif\<close> tokens: on an \<open>elif\<close> it calls \<open>if_statement\<close>, which reads
  the whole rest of the chain, and appends the result.
\<close>

lemma elif_loop_exit:
  "(\<forall>t. get_token ts = Some t \<longrightarrow> type t \<noteq> Some ELIF) \<Longrightarrow>
   elif_loop (Suc k) elifs ts = Inr (elifs, ts)"
  by (cases "get_token ts") (auto simp: elif_loop.simps)

lemma elif_loop_step:
  "get_token ts = Some t \<Longrightarrow> type t = Some ELIF \<Longrightarrow> if_statement k ts = Inr (node, rest) \<Longrightarrow>
   elif_loop (Suc k) elifs ts = elif_loop k (elifs @ [node]) rest"
  by (simp add: elif_loop.simps)

lemma else_part_none:
  "(\<forall>t. get_token ts = Some t \<longrightarrow> type t \<noteq> Some ELSE) \<Longrightarrow> else_part k ts = Inr ([], ts)"
  by (cases "get_token ts") (auto simp: else_part_def)

text \<open>
  By induction on the \<open>elif\<close> clauses: the call of \<open>if_statement\<close> on the first \<open>elif\<close>
  reads all the clauses left and the \<open>else\<close> part, so the loop of the caller finds
  nothing more to read.
\<close>

lemma if_statement_chain:
  "clause n ts = Inr (cb, ts1) \<Longrightarrow> elif_clauses n ts1 cls ts2 \<Longrightarrow>
   (\<forall>t. get_token ts2 = Some t \<longrightarrow> type t \<noteq> Some ELIF) \<Longrightarrow>
   else_part n ts2 = Inr (els, rest) \<Longrightarrow>
   (cls \<noteq> [] \<longrightarrow> (\<forall>t. get_token rest = Some t \<longrightarrow> type t \<noteq> Some ELIF \<and> type t \<noteq> Some ELSE)) \<Longrightarrow>
   n + 2 * length cls + 2 \<le> m \<Longrightarrow>
   if_statement m ts = Inr (chain cb cls els, rest)"
proof (induction cls arbitrary: ts cb ts1 m)
  case Nil
  from Nil.prems(6) obtain k where m: "m = Suc (Suc k)" and k: "n \<le> Suc k"
    by (cases m; cases "m - 1") auto
  obtain c b where cb: "cb = (c, b)"
    by (cases cb)
  from Nil.prems(2) have ts2: "ts2 = ts1"
    by simp
  have "clause (Suc k) ts = Inr ((c, b), ts1)"
    using Nil.prems(1) k unfolding cb by (rule clause_more_fuel)
  moreover have "elif_loop (Suc k) [] ts1 = Inr ([], ts1)"
    using Nil.prems(3) unfolding ts2 by (rule elif_loop_exit)
  moreover have "else_part (Suc k) ts1 = Inr (els, rest)"
    using Nil.prems(4) k unfolding ts2 by (rule else_part_more_fuel)
  ultimately show ?case
    unfolding m if_statement_unroll cb by simp
next
  case (Cons cb' cls)
  from Cons.prems(6) obtain k where m: "m = Suc (Suc (Suc k))"
    and k: "n + 2 * length cls + 2 \<le> Suc k"
    by (cases m; cases "m - 1"; cases "m - 2") auto
  obtain c b where cb: "cb = (c, b)"
    by (cases cb)
  from Cons.prems(2) obtain t ts1' where t: "get_token ts1 = Some t" "type t = Some ELIF"
    and cl: "clause n ts1 = Inr (cb', ts1')" and rest: "elif_clauses n ts1' cls ts2"
    by (auto split: option.splits sum.splits)
  from Cons.prems(5) have follow: "\<forall>t. get_token rest = Some t \<longrightarrow> type t \<noteq> Some ELIF \<and> type t \<noteq> Some ELSE"
    by simp
  have inner: "if_statement (Suc k) ts1 = Inr (chain cb' cls els, rest)"
    using cl rest Cons.prems(3) Cons.prems(4) _ k by (rule Cons.IH) (simp add: follow)
  have "clause (Suc (Suc k)) ts = Inr ((c, b), ts1)"
    using Cons.prems(1) unfolding cb by (rule clause_more_fuel) (use k in simp)
  moreover have "elif_loop (Suc (Suc k)) [] ts1 = Inr ([chain cb' cls els], rest)"
  proof -
    have "elif_loop (Suc (Suc k)) [] ts1 = elif_loop (Suc k) ([] @ [chain cb' cls els]) rest"
      using t inner by (rule elif_loop_step)
    also have "\<dots> = Inr ([chain cb' cls els], rest)"
      using follow by (simp add: elif_loop_exit)
    finally show ?thesis .
  qed
  moreover have "else_part (Suc (Suc k)) rest = Inr ([], rest)"
    using follow by (simp add: else_part_none)
  ultimately show ?case
    unfolding m if_statement_unroll cb by simp
qed

text \<open>
  With two \<open>elif\<close> clauses and an \<open>else\<close>: the \<open>elif\<close> list of the conditional of \<open>a\<close>
  has one entry, the conditional of \<open>b\<close>, which holds the conditional of \<open>c\<close> in its own
  \<open>elif\<close> list; the \<open>else\<close> block is in the conditional of \<open>c\<close>. The tree with both
  \<open>elif\<close> clauses in one list and the \<open>else\<close> block in the outermost conditional is not
  what \<open>parse\<close> returns.
\<close>

theorem elif_list_counterexample:
  "bindE (tokenize ''if a { 1; } elif b { 2; } elif c { 3; } else { 4; }'') (parse 20)
     = Inr (Module
         [IfStatement (Reference ''a'' False) [Literal 1 True]
            [IfStatement (Reference ''b'' False) [Literal 2 True]
               [IfStatement (Reference ''c'' False) [Literal 3 True] [] [Literal 4 True]]
               []]
            []]) \<and>
   bindE (tokenize ''if a { 1; } elif b { 2; } elif c { 3; } else { 4; }'') (parse 20)
     \<noteq> Inr (Module
         [IfStatement (Reference ''a'' False) [Literal 1 True]
            [IfStatement (Reference ''b'' False) [Literal 2 True] [] [],
             IfStatement (Reference ''c'' False) [Literal 3 True] [] []]
            [Literal 4 True]])"
  by code_simp

text \<open>
  Claim C8, as the code has it. For tokens that start with a clause, the \<open>elif\<close> clauses
  \<open>cls\<close> and an \<open>else\<close> part (no further \<open>elif\<close> standing before the \<open>else\<close> part, and
  neither \<open>elif\<close> nor \<open>else\<close> after the conditional when it has an \<open>elif\<close> clause),
  \<open>if_statement\<close> returns the chain of the clauses, at every recursion bound that is
  large enough: the conditional of each clause has the conditional of the next clause as
  the only entry of its \<open>elif\<close> list and an empty \<open>else\<close> block, and the conditional of
  the last clause has an empty \<open>elif\<close> list and the \<open>else\<close> block.
\<close>

theorem if_statement_right_nested:
  "clause n ts = Inr (cb, ts1) \<and> elif_clauses n ts1 cls ts2 \<and>
   (\<forall>t. get_token ts2 = Some t \<longrightarrow> type t \<noteq> Some ELIF) \<and>
   else_part n ts2 = Inr (els, rest) \<and>
   (cls \<noteq> [] \<longrightarrow> (\<forall>t. get_token rest = Some t \<longrightarrow> type t \<noteq> Some ELIF \<and> type t \<noteq> Some ELSE)) \<and>
   n + 2 * length cls + 2 \<le> m \<longrightarrow>
     if_statement m ts = Inr (chain cb cls els, rest)"
  using if_statement_chain [of n ts cb ts1 cls ts2 els rest m] by blast

text \<open>
  The tokens of \<open>if x { 1; } elif y { 2; } else { 3; } 4;\<close>: the \<open>else\<close> block is in the
  conditional of \<open>y\<close>, and the tokens of \<open>4;\<close> are left.
\<close>

theorem if_statement_right_nested_witness:
  "bindE (tokenize ''if x { 1; } elif y { 2; } else { 3; } 4;'') (if_statement 20)
     = Inr (IfStatement (Reference ''x'' False) [Literal 1 True]
              [IfStatement (Reference ''y'' False) [Literal 2 True] [] [Literal 3 True]] [],
            [\<lparr>type = Some INT_T, tvalue = IntVal 4, line = 1, col = 39\<rparr>,
             \<lparr>type = Some SEMICOLON, tvalue = StrVal '';'', line = 1, col = 40\<rparr>])"
proof -
  define ts where
    "ts = (case tokenize ''if x { 1; } elif y { 2; } else { 3; } 4;'' of Inl e \<Rightarrow> [] | Inr ts \<Rightarrow> ts)"
  define rest where
    "rest = [\<lparr>type = Some INT_T, tvalue = IntVal 4, line = 1, col = 39\<rparr>,
             \<lparr>type = Some SEMICOLON, tvalue = StrVal '';'', line = 1, col = 40\<rparr>]"
  have t: "tokenize ''if x { 1; } elif y { 2; } else { 3; } 4;'' = Inr ts"
    unfolding ts_def by code_simp
  have c: "clause 10 ts = Inr ((Reference ''x'' False, [Literal 1 True]), drop 6 ts)"
    unfolding ts_def by code_simp
  have e: "elif_clauses 10 (drop 6 ts) [(Reference ''y'' False, [Literal 2 True])] (drop 12 ts)"
    unfolding ts_def by code_simp
  have g: "map_option type (get_token (drop 12 ts)) = Some (Some ELSE)"
    unfolding ts_def by code_simp
  have l: "else_part 10 (drop 12 ts) = Inr ([Literal 3 True], rest)"
    unfolding ts_def rest_def by code_simp
  have r: "map_option type (get_token rest) = Some (Some INT_T)"
    unfolding rest_def by code_simp
  note inst = if_statement_right_nested [where n = 10 and ts = ts
      and cb = "(Reference ''x'' False, [Literal 1 True])" and ?ts1.0 = "drop 6 ts"
      and cls = "[(Reference ''y'' False, [Literal 2 True])]" and ?ts2.0 = "drop 12 ts"
      and els = "[Literal 3 True]" and rest = rest and m = 20]
  from g have g': "\<forall>t. get_token (drop 12 ts) = Some t \<longrightarrow> type t \<noteq> Some ELIF"
    by auto
  from r have r': "\<forall>t. get_token rest = Some t \<longrightarrow> type t \<noteq> Some ELIF \<and> type t \<noteq> Some ELSE"
    by auto
  from inst c e g' l r' have "if_statement 20 ts =
      Inr (chain (Reference ''x'' False, [Literal 1 True]) [(Reference ''y'' False, [Literal 2 True])]
             [Literal 3 True], rest)"
    by simp
  with t show ?thesis
    by (simp add: rest_def)
qed

end
